theory Spec2Isabelle
  imports Complex_Main "HOL-Library.Word"
begin


section \<open>Floating-point values of the program\<close>

text \<open>
  The program computes with C++ \<^verbatim>\<open>float\<close> (IEEE 754 binary32) and, where \<^verbatim>\<open>M_PI\<close>
  takes part, with \<^verbatim>\<open>double\<close> (binary64). A value is a real number, a negative zero,
  an infinity with its sign (\<open>True\<close> is negative), or a NaN. Every arithmetic operation
  computes the exact result and rounds it to the nearest value of its format,
  ties to the even significand, as the hardware does in its default mode.
\<close>

type_synonym u32 = "32 word"

datatype ieee = Finite real | NegZero | Infinity bool | NaN

fun sign_of :: "ieee \<Rightarrow> bool" where
  "sign_of (Finite q) = (q < 0)"
| "sign_of NegZero = True"
| "sign_of (Infinity s) = s"
| "sign_of NaN = False"

fun valof :: "ieee \<Rightarrow> real" where
  "valof (Finite q) = q"
| "valof _ = 0"

definition mk_finite :: "bool \<Rightarrow> real \<Rightarrow> ieee" where
  "mk_finite s m = (if m = 0 then (if s then NegZero else Finite 0)
                    else Finite (if s then - m else m))"

text \<open>
  Rounding works on the magnitude scaled so that the smallest subnormal is 1: with
  precision \<open>p\<close>, a scaled magnitude below \<open>2 ^ p\<close> has unit in the last place 1, and the
  unit doubles with every binade above.
\<close>

function bexp :: "nat \<Rightarrow> real \<Rightarrow> nat" where
  "bexp p y = (if y < 2 ^ p then 0 else Suc (bexp p (y / 2)))"
  by pat_completeness auto
termination
proof (relation "measure (\<lambda>(p, y). nat \<lfloor>y\<rfloor>)")
  show "wf (measure (\<lambda>(p, y). nat \<lfloor>y\<rfloor>))"
    by simp
next
  fix p :: nat and y :: real
  assume "\<not> y < 2 ^ p"
  then have "1 \<le> y"
    by (meson linorder_not_less one_le_numeral one_le_power order_trans)
  then have pos: "1 \<le> \<lfloor>y\<rfloor>"
    by simp
  then have "(1::real) \<le> of_int \<lfloor>y\<rfloor>"
    by (simp only: of_int_1_le_iff)
  moreover have "y < of_int \<lfloor>y\<rfloor> + 1"
    by linarith
  ultimately have "y / 2 < of_int \<lfloor>y\<rfloor>"
    by linarith
  then have "\<lfloor>y / 2\<rfloor> < \<lfloor>y\<rfloor>"
    by (simp only: floor_less_iff)
  with pos show "((p, y / 2), (p, y)) \<in> measure (\<lambda>(p, y). nat \<lfloor>y\<rfloor>)"
    by simp
qed

declare bexp.simps [simp del]

definition round_half_even :: "real \<Rightarrow> int" where
  "round_half_even q =
     (let f = \<lfloor>q\<rfloor>; d = q - of_int f
      in if d < 1 / 2 then f else if 1 / 2 < d then f + 1 else if even f then f else f + 1)"

definition round_mag :: "nat \<Rightarrow> nat \<Rightarrow> real \<Rightarrow> real" where
  "round_mag p sc m =
     (let y = m * 2 ^ sc; u = 2 ^ bexp p y
      in of_int (round_half_even (y / u)) * u / 2 ^ sc)"

text \<open>binary32: 24 significant bits, smallest subnormal \<open>2 ^ -149\<close>, overflow from \<open>2 ^ 128\<close>.\<close>

definition round32 :: "bool \<Rightarrow> real \<Rightarrow> ieee" where
  "round32 s m = (let r = round_mag 24 149 m in if 2 ^ 128 \<le> r then Infinity s else mk_finite s r)"

text \<open>binary64: 53 significant bits, smallest subnormal \<open>2 ^ -1074\<close>, overflow from \<open>2 ^ 1024\<close>.\<close>

definition round64 :: "bool \<Rightarrow> real \<Rightarrow> ieee" where
  "round64 s m = (let r = round_mag 53 1074 m in if 2 ^ 1024 \<le> r then Infinity s else mk_finite s r)"

fun fmul :: "(bool \<Rightarrow> real \<Rightarrow> ieee) \<Rightarrow> ieee \<Rightarrow> ieee \<Rightarrow> ieee" where
  "fmul rnd NaN b = NaN"
| "fmul rnd a NaN = NaN"
| "fmul rnd (Infinity s) (Infinity t) = Infinity (s \<noteq> t)"
| "fmul rnd (Infinity s) b = (if valof b = 0 then NaN else Infinity (s \<noteq> sign_of b))"
| "fmul rnd a (Infinity t) = (if valof a = 0 then NaN else Infinity (sign_of a \<noteq> t))"
| "fmul rnd a b = rnd (sign_of a \<noteq> sign_of b) (\<bar>valof a\<bar> * \<bar>valof b\<bar>)"

fun fdiv :: "(bool \<Rightarrow> real \<Rightarrow> ieee) \<Rightarrow> ieee \<Rightarrow> ieee \<Rightarrow> ieee" where
  "fdiv rnd NaN b = NaN"
| "fdiv rnd a NaN = NaN"
| "fdiv rnd (Infinity s) (Infinity t) = NaN"
| "fdiv rnd (Infinity s) b = Infinity (s \<noteq> sign_of b)"
| "fdiv rnd a (Infinity t) = mk_finite (sign_of a \<noteq> t) 0"
| "fdiv rnd a b =
     (if valof b = 0 then (if valof a = 0 then NaN else Infinity (sign_of a \<noteq> sign_of b))
      else rnd (sign_of a \<noteq> sign_of b) (\<bar>valof a\<bar> / \<bar>valof b\<bar>))"

fun fsub :: "(bool \<Rightarrow> real \<Rightarrow> ieee) \<Rightarrow> ieee \<Rightarrow> ieee \<Rightarrow> ieee" where
  "fsub rnd NaN b = NaN"
| "fsub rnd a NaN = NaN"
| "fsub rnd (Infinity s) (Infinity t) = (if s = t then NaN else Infinity s)"
| "fsub rnd (Infinity s) b = Infinity s"
| "fsub rnd a (Infinity t) = Infinity (\<not> t)"
| "fsub rnd a b =
     (let d = valof a - valof b
      in if d = 0 then mk_finite (sign_of a \<and> \<not> sign_of b) 0 else rnd (d < 0) \<bar>d\<bar>)"

text \<open>The comparison \<^verbatim>\<open><=\<close>: false as soon as an operand is a NaN; the two zeros are equal.\<close>

fun fle :: "ieee \<Rightarrow> ieee \<Rightarrow> bool" where
  "fle NaN b = False"
| "fle a NaN = False"
| "fle (Infinity s) b = (s \<or> b = Infinity False)"
| "fle a (Infinity t) = (\<not> t)"
| "fle a b = (valof a \<le> valof b)"

text \<open>
  Conversions. An unsigned 32-bit integer becomes the nearest \<^verbatim>\<open>float\<close>. A \<^verbatim>\<open>float\<close>
  becomes an unsigned integer by discarding the fraction; the C++ standard leaves the
  conversion undefined when the truncated value does not fit (\<open>None\<close>). A \<^verbatim>\<open>float\<close> is a
  \<^verbatim>\<open>double\<close> unchanged; a \<^verbatim>\<open>double\<close> is rounded when it becomes a \<^verbatim>\<open>float\<close>.
\<close>

definition float_of_u32 :: "u32 \<Rightarrow> ieee" where
  "float_of_u32 w = round32 False (of_nat (unat w))"

fun u32_of_float :: "ieee \<Rightarrow> u32 option" where
  "u32_of_float (Finite q) =
     (if - 1 < q \<and> q < 2 ^ 32 then Some (word_of_int \<lfloor>\<bar>q\<bar>\<rfloor>) else None)"
| "u32_of_float NegZero = Some 0"
| "u32_of_float (Infinity s) = None"
| "u32_of_float NaN = None"

fun float_of_double :: "ieee \<Rightarrow> ieee" where
  "float_of_double (Finite q) = round32 (q < 0) \<bar>q\<bar>"
| "float_of_double x = x"

section \<open>The sample-count conversion\<close>

text \<open>
  \<^verbatim>\<open>std::uint32_t convertSampleValue(float value) {
    std::uint32_t sampleCount = value * 16;
    return std::max(sampleCount, 1u);
  }\<close>
  The integer 16 is the \<^verbatim>\<open>float\<close> 16, the product is a \<^verbatim>\<open>float\<close>, and its conversion to
  the unsigned count is the step that can be undefined.
\<close>

definition convertSampleValue :: "ieee \<Rightarrow> u32 option" where
  "convertSampleValue v =
     (case u32_of_float (fmul round32 v (Finite 16)) of
        None \<Rightarrow> None
      | Some sampleCount \<Rightarrow> Some (max sampleCount 1))"

text \<open>The rounded product \<open>q * 16\<close> of \<open>convertSampleValue\<close> with its fraction discarded, as an integer.\<close>

definition unit_count :: "real \<Rightarrow> int" where
  "unit_count q = \<lfloor>round_mag 24 149 (q * 16)\<rfloor>"

section \<open>Decimal output\<close>

text \<open>
  The stream insertion of an unsigned integer and \<^verbatim>\<open>std::to_string\<close> of an \<^verbatim>\<open>int\<close> print
  decimal digits, the most significant first, with a minus sign for a negative number.
\<close>

definition digit :: "nat \<Rightarrow> char" where
  "digit n = ''0123456789'' ! n"

function dec :: "nat \<Rightarrow> string" where
  "dec n = (if n < 10 then [digit n] else dec (n div 10) @ [digit (n mod 10)])"
  by pat_completeness auto
termination
  by (relation "measure id") simp_all

declare dec.simps [simp del]

definition to_string :: "int \<Rightarrow> string" where
  "to_string i = (if i < 0 then CHR ''-'' # dec (nat (- i)) else dec (nat i))"

section \<open>The tile histogram\<close>

text \<open>
  The widget \<^verbatim>\<open>nanogui::Graph\<close> as far as the form uses it: a caption, a header line and
  the plotted values.
\<close>

record Graph =
  caption :: string
  header :: string
  graph_values :: "ieee list"

text \<open>
  The subscription on \<^verbatim>\<open>"tile_histogram"\<close>, on the decoded counts:
  \<^verbatim>\<open>std::uint32_t max = 0.f;
  for (const auto& v : data) { if (v > max) { max = v; } }
  const float scale = 1.f / max;
  for (const auto& v : data) { dataf.push_back(v * scale); }
  ss << "max tile: " << max;
  hist->set_header(ss.str());
  hist->set_values(dataf);\<close>
  Both \<^verbatim>\<open>1.f / max\<close> and \<^verbatim>\<open>v * scale\<close> convert the integer operand to \<^verbatim>\<open>float\<close> first.
\<close>

definition histogram_max :: "u32 list \<Rightarrow> u32" where
  "histogram_max data = foldl (\<lambda>mx v. if mx < v then v else mx) 0 data"

definition tile_histogram_callback :: "u32 list \<Rightarrow> Graph \<Rightarrow> Graph" where
  "tile_histogram_callback data hist =
     (let mx = histogram_max data;
          scale = fdiv round32 (Finite 1) (float_of_u32 mx);
          dataf = map (\<lambda>v. fmul round32 (float_of_u32 v) scale) data
      in hist\<lparr>header := ''max tile: '' @ dec (unat mx), graph_values := dataf\<rparr>)"

text \<open>The graph as the constructor leaves it: captioned, with no header and no values yet.\<close>

definition new_Graph :: Graph where
  "new_Graph = \<lparr>caption = ''Splats per tile'', header = [], graph_values = []\<rparr>"

section \<open>The controls form\<close>

text \<open>
  A packet on the wire is a channel name with an encoded value. The codec
  (\<^verbatim>\<open>serialise\<close>, \<^verbatim>\<open>deserialise\<close>) and the transport (\<^verbatim>\<open>PacketMuxer\<close>, \<^verbatim>\<open>PacketDemuxer\<close>)
  are libraries outside the sources; a value is kept with the type it was encoded from.
\<close>

datatype payload = PFloat ieee | PString string | PBool bool | PCounts "u32 list"

type_synonym packet = "string \<times> payload"

datatype subscription = FovSubscription | TileHistogramSubscription

text \<open>
  What the C++ code leaves undefined or raises is a value of the model: a payload that
  does not decode, a read outside a vector.
\<close>

datatype error = DecodeFailure | OutOfBounds

text \<open>
  Modelled from the spec: the declaration of \<^verbatim>\<open>packets::HdrHeader\<close> is not among the
  sources. The spec gives the frame header an integer width and height; the loop counter
  of \<open>savePfm\<close>, declared \<^verbatim>\<open>auto\<close>, takes their type, and its test \<^verbatim>\<open>r >= 0\<close> is the signed one.
  The third field of \<^verbatim>\<open>HdrHeader{0,0,0}\<close> is never read by the sources and is left out.
\<close>

record HdrHeader =
  width :: int
  height :: int

text \<open>
  The state of the form and of the sender it holds a reference to: the displayed value of
  every slider (\<^verbatim>\<open>nanogui::Slider\<close> keeps the \<^verbatim>\<open>float\<close> it was last given), the histogram
  graph, the frame header and buffer, the subscriptions by channel name, the visibility of
  the screen, and the packets handed to the sender so far, oldest first. The samples of
  the frame buffer are kept as the 32-bit patterns they are stored as, since the form
  only copies them. The lines the code writes to the log are not part of the state, nor
  are the widgets that only display (the text boxes) or only lay out (groups, labels).
\<close>

record ControlsForm =
  fovSlider :: ieee
  exposureSlider :: ieee
  gammaSlider :: ieee
  XSlider :: ieee
  YSlider :: ieee
  lambda1Slider :: ieee
  lambda2Slider :: ieee
  hist :: Graph
  hdrHeader :: HdrHeader
  hdrBuffer :: "u32 list"
  subs :: "string \<rightharpoonup> subscription"
  screen_visible :: bool
  sent :: "packet list"

text \<open>
  Modelled from the spec: the Outbound Publisher (\<^verbatim>\<open>serialise(sender, name, value)\<close>, whose
  code is outside the sources) encodes the value and hands it to the transport tagged
  with the name, fire and forget.
\<close>

definition serialise :: "string \<Rightarrow> payload \<Rightarrow> ControlsForm \<Rightarrow> ControlsForm" where
  "serialise name v st = st\<lparr>sent := sent st @ [(name, v)]\<rparr>"

text \<open>
  The constant \<^verbatim>\<open>M_PI\<close> of \<^verbatim>\<open>math.h\<close> is the \<^verbatim>\<open>double\<close> nearest to \<open>\<pi>\<close>. An expression
  that contains it is evaluated in \<^verbatim>\<open>double\<close>, and rounded once more where the result
  becomes a \<^verbatim>\<open>float\<close>.
\<close>

definition M_PI :: ieee where
  "M_PI = Finite (884279719003555 / 281474976710656)"

subsection \<open>Local edits: the callbacks the widgets are given\<close>

text \<open>
  \<^verbatim>\<open>rotationWheel->set_callback([&](float value) {
    float angle = value/(2.f*M_PI) * 360.f;
    serialise(sender, "env_rotation", angle); });\<close>
\<close>

definition rotationWheel_callback :: "ieee \<Rightarrow> ControlsForm \<Rightarrow> ControlsForm" where
  "rotationWheel_callback v st =
     (let angle = float_of_double
                    (fmul round64 (fdiv round64 v (fmul round64 (Finite 2) M_PI)) (Finite 360))
      in serialise ''env_rotation'' (PFloat angle) st)"

text \<open>\<^verbatim>\<open>serialise(sender, "fov", value * 360.f);\<close>\<close>

definition fovSlider_callback :: "ieee \<Rightarrow> ControlsForm \<Rightarrow> ControlsForm" where
  "fovSlider_callback v st = serialise ''fov'' (PFloat (fmul round32 v (Finite 360))) st"

text \<open>\<^verbatim>\<open>value = 4.f * (value - 0.5f); serialise(sender, "exposure", value);\<close>\<close>

definition exposureSlider_callback :: "ieee \<Rightarrow> ControlsForm \<Rightarrow> ControlsForm" where
  "exposureSlider_callback v st =
     serialise ''exposure'' (PFloat (fmul round32 (Finite 4) (fsub round32 v (Finite (1 / 2))))) st"

text \<open>\<^verbatim>\<open>value = 4.f * value; serialise(sender, "gamma", value);\<close>\<close>

definition gammaSlider_callback :: "ieee \<Rightarrow> ControlsForm \<Rightarrow> ControlsForm" where
  "gammaSlider_callback v st = serialise ''gamma'' (PFloat (fmul round32 (Finite 4) v)) st"

definition XSlider_callback :: "ieee \<Rightarrow> ControlsForm \<Rightarrow> ControlsForm" where
  "XSlider_callback v st = serialise ''X'' (PFloat (fmul round32 v (Finite 1280))) st"

definition YSlider_callback :: "ieee \<Rightarrow> ControlsForm \<Rightarrow> ControlsForm" where
  "YSlider_callback v st = serialise ''Y'' (PFloat (fmul round32 v (Finite 720))) st"

definition lambda1Slider_callback :: "ieee \<Rightarrow> ControlsForm \<Rightarrow> ControlsForm" where
  "lambda1Slider_callback v st = serialise ''lambda1'' (PFloat (fmul round32 v (Finite 100))) st"

definition lambda2Slider_callback :: "ieee \<Rightarrow> ControlsForm \<Rightarrow> ControlsForm" where
  "lambda2Slider_callback v st = serialise ''lambda2'' (PFloat (fmul round32 v (Finite 100))) st"

text \<open>
  The device chooser offers \<^verbatim>\<open>{"cpu", "ipu"}\<close> and sends the chosen item:
  \<^verbatim>\<open>auto deviceString = deviceChooser->items()[index];
  serialise(sender, "device", deviceString);\<close>
  Indexing the items outside their range is undefined in C++.
\<close>

definition deviceChooser_items :: "string list" where
  "deviceChooser_items = [''cpu'', ''ipu'']"

definition deviceChooser_callback :: "int \<Rightarrow> ControlsForm \<Rightarrow> error + ControlsForm" where
  "deviceChooser_callback index st =
     (if 0 \<le> index \<and> index < int (length deviceChooser_items)
      then Inr (serialise ''device'' (PString (deviceChooser_items ! nat index)) st)
      else Inl OutOfBounds)"

text \<open>\<^verbatim>\<open>serialise(sender, "stop", true); screen->set_visible(false);\<close>\<close>

definition stop_callback :: "ControlsForm \<Rightarrow> ControlsForm" where
  "stop_callback st = (serialise ''stop'' (PBool True) st)\<lparr>screen_visible := False\<rparr>"

text \<open>The channels the controls of the form publish on, in the order the controls are made.\<close>

definition control_channels :: "string list" where
  "control_channels = [''env_rotation'', ''fov'', ''exposure'', ''gamma'', ''X'', ''Y'',
                       ''lambda1'', ''lambda2'', ''device'', ''stop'']"

definition publishes_on :: "string \<Rightarrow> packet list \<Rightarrow> payload list" where
  "publishes_on name ps = map snd (filter (\<lambda>p. fst p = name) ps)"

subsection \<open>Remote updates: the subscriptions\<close>

text \<open>
  \<^verbatim>\<open>float fovRadians = 0.f;
  deserialise(packet, fovRadians);
  fovSlider->set_value(fovRadians / (2.f * M_PI));\<close>
  Modelled from the spec: \<^verbatim>\<open>nanogui::Slider::set_value\<close> (the widget toolkit is outside the
  sources) sets the displayed value and does not invoke the slider's callback. The trace
  line written between the two statements goes to the log.
\<close>

definition fov_subscription :: "ieee \<Rightarrow> ControlsForm \<Rightarrow> ControlsForm" where
  "fov_subscription fovRadians st =
     st\<lparr>fovSlider := float_of_double (fdiv round64 fovRadians (fmul round64 (Finite 2) M_PI))\<rparr>"

definition tile_histogram_subscription :: "u32 list \<Rightarrow> ControlsForm \<Rightarrow> ControlsForm" where
  "tile_histogram_subscription data st = st\<lparr>hist := tile_histogram_callback data (hist st)\<rparr>"

text \<open>
  Modelled from the spec: the Inbound Dispatcher (\<^verbatim>\<open>PacketDemuxer\<close>, outside the sources)
  looks the channel name up and invokes the callback registered for it with the payload;
  a message on a channel without a subscription is dropped silently. A payload that does
  not decode to the type the callback asks for is a failure of the codec.
\<close>

fun dispatch :: "string \<Rightarrow> payload \<Rightarrow> ControlsForm \<Rightarrow> error + ControlsForm" where
  "dispatch name p st =
     (case subs st name of
        None \<Rightarrow> Inr st
      | Some FovSubscription \<Rightarrow>
          (case p of PFloat v \<Rightarrow> Inr (fov_subscription v st) | _ \<Rightarrow> Inl DecodeFailure)
      | Some TileHistogramSubscription \<Rightarrow>
          (case p of PCounts data \<Rightarrow> Inr (tile_histogram_subscription data st)
                   | _ \<Rightarrow> Inl DecodeFailure))"

subsection \<open>The constructor\<close>

text \<open>
  Before the constructor body runs: every slider shows 0, the header is \<^verbatim>\<open>HdrHeader{0,0,0}\<close>,
  the buffer and the subscriptions are empty, the screen is visible, and the sender has
  sent what it had sent before.
\<close>

definition initial_form :: "packet list \<Rightarrow> ControlsForm" where
  "initial_form already_sent =
     \<lparr>fovSlider = Finite 0, exposureSlider = Finite 0, gammaSlider = Finite 0,
      XSlider = Finite 0, YSlider = Finite 0, lambda1Slider = Finite 0, lambda2Slider = Finite 0,
      hist = new_Graph, hdrHeader = \<lparr>width = 0, height = 0\<rparr>, hdrBuffer = [],
      subs = Map.empty, screen_visible = True, sent = already_sent\<rparr>"

text \<open>
  The body, statement by statement. The rotation wheel, the device chooser and the stop
  button are only given their callbacks. Each slider is given its callback, then
  \<^verbatim>\<open>set_value(default)\<close>, then \<^verbatim>\<open>callback()(value())\<close>. The literal \<^verbatim>\<open>2.2f\<close> is the \<^verbatim>\<open>float\<close>
  nearest to 2.2.
\<close>

definition construct_fov :: "ControlsForm \<Rightarrow> ControlsForm" where
  "construct_fov st =
     (let st1 = st\<lparr>fovSlider := fdiv round32 (Finite 90) (Finite 360)\<rparr>;
          st2 = fovSlider_callback (fovSlider st1) st1
      in st2\<lparr>subs := (subs st2)(''fov'' \<mapsto> FovSubscription)\<rparr>)"

definition construct_exposure :: "ControlsForm \<Rightarrow> ControlsForm" where
  "construct_exposure st =
     (let st1 = st\<lparr>exposureSlider := Finite (1 / 2)\<rparr>
      in exposureSlider_callback (exposureSlider st1) st1)"

definition construct_gamma :: "ControlsForm \<Rightarrow> ControlsForm" where
  "construct_gamma st =
     (let st1 = st\<lparr>gammaSlider := fdiv round32 (round32 False (22 / 10)) (Finite 4)\<rparr>
      in gammaSlider_callback (gammaSlider st1) st1)"

definition construct_X :: "ControlsForm \<Rightarrow> ControlsForm" where
  "construct_X st =
     (let st1 = st\<lparr>XSlider := fdiv round32 (Finite 640) (Finite 1280)\<rparr>
      in XSlider_callback (XSlider st1) st1)"

definition construct_Y :: "ControlsForm \<Rightarrow> ControlsForm" where
  "construct_Y st =
     (let st1 = st\<lparr>YSlider := fdiv round32 (Finite 360) (Finite 720)\<rparr>
      in YSlider_callback (YSlider st1) st1)"

definition construct_lambda1 :: "ControlsForm \<Rightarrow> ControlsForm" where
  "construct_lambda1 st =
     (let st1 = st\<lparr>lambda1Slider := fdiv round32 (Finite 500) (Finite 10)\<rparr>
      in lambda1Slider_callback (lambda1Slider st1) st1)"

definition construct_lambda2 :: "ControlsForm \<Rightarrow> ControlsForm" where
  "construct_lambda2 st =
     (let st1 = st\<lparr>lambda2Slider := fdiv round32 (Finite 500) (Finite 10)\<rparr>
      in lambda2Slider_callback (lambda2Slider st1) st1)"

definition construct_histogram :: "ControlsForm \<Rightarrow> ControlsForm" where
  "construct_histogram st =
     st\<lparr>hist := new_Graph, subs := (subs st)(''tile_histogram'' \<mapsto> TileHistogramSubscription)\<rparr>"

definition ControlsForm_new :: "packet list \<Rightarrow> ControlsForm" where
  "ControlsForm_new already_sent =
     (construct_histogram \<circ> construct_lambda2 \<circ> construct_lambda1 \<circ> construct_Y \<circ> construct_X
        \<circ> construct_gamma \<circ> construct_exposure \<circ> construct_fov) (initial_form already_sent)"

section \<open>Frame export\<close>

text \<open>
  A file is its sequence of bytes (a \<open>char\<close> is a byte), the file system a map from names
  to files. A sample is written as the four bytes it occupies in memory, the least
  significant first, which is the order the marker \<^verbatim>\<open>-1.0\<close> announces.
\<close>

type_synonym files = "string \<rightharpoonup> string"

definition sample_bytes :: "u32 \<Rightarrow> string" where
  "sample_bytes w = map (\<lambda>i. char_of (unat w div 256 ^ i)) [0, 1, 2, 3]"

text \<open>
  One pass of the loop body:
  \<^verbatim>\<open>auto rowStart = reinterpret_cast<char*>(hdrBuffer.data() + (r * hdrHeader.width * 3));
  f.write(rowStart, hdrHeader.width * 3 * sizeof(float));\<close>
  Forming a row address outside the buffer, and reading there, is undefined in C++; the
  model reports it, whatever the state of the stream.
\<close>

definition row_bytes :: "int \<Rightarrow> u32 list \<Rightarrow> int \<Rightarrow> error + string" where
  "row_bytes w buf r =
     (let start = r * w * 3; n = w * 3
      in if 0 \<le> n \<and> 0 \<le> start \<and> start + n \<le> int (length buf)
         then Inr (concat (map sample_bytes (take (nat n) (drop (nat start) buf))))
         else Inl OutOfBounds)"

text \<open>\<^verbatim>\<open>for (auto r = hdrHeader.height - 1; r >= 0; --r) { ... }\<close>\<close>

function write_rows :: "int \<Rightarrow> u32 list \<Rightarrow> int \<Rightarrow> string \<Rightarrow> error + string" where
  "write_rows w buf r out =
     (if 0 \<le> r
      then (case row_bytes w buf r of
              Inl e \<Rightarrow> Inl e
            | Inr row \<Rightarrow> write_rows w buf (r - 1) (out @ row))
      else Inr out)"
  by pat_completeness auto
termination
  by (relation "measure (\<lambda>(w, buf, r, out). nat (r + 1))") simp_all

declare write_rows.simps [simp del]

definition newline :: char where
  "newline = CHR 0x0A"

definition pfm_header :: "HdrHeader \<Rightarrow> string" where
  "pfm_header h =
     ''PF'' @ [newline] @ to_string (width h) @ '' '' @ to_string (height h) @ [newline]
       @ ''-1.0'' @ [newline]"

text \<open>
  Whether \<^verbatim>\<open>std::ofstream f(fileName, std::ios::binary)\<close> opens is for the file system to
  say, name by name. A stream that is refused leaves no file, and every insertion into it
  is without effect. A stream that opens creates the file or empties it, and takes the
  bytes inserted: all of them, or only the first \<open>n\<close> when a write fails on the way, after
  which the rest is without effect. \<open>savePfm\<close> never tests the stream.
\<close>

datatype stream_opening = Refused | Accepts "nat option"

definition deliver :: "stream_opening \<Rightarrow> string \<Rightarrow> string \<Rightarrow> files \<Rightarrow> files" where
  "deliver how fileName bytes fs =
     (case how of
        Refused \<Rightarrow> fs
      | Accepts None \<Rightarrow> fs(fileName \<mapsto> bytes)
      | Accepts (Some n) \<Rightarrow> fs(fileName \<mapsto> take n bytes))"

text \<open>
  The bytes the body of \<open>savePfm\<close> inserts into its stream, in order:
  \<^verbatim>\<open>f << "PF\n";
  f << std::to_string(hdrHeader.width) << " ";
  f << std::to_string(hdrHeader.height) << "\n";
  f << "-1.0\n";
  for (auto r = hdrHeader.height - 1; r >= 0; --r) { ... f.write(rowStart, ...); }\<close>
\<close>

definition pfm_stream :: "ControlsForm \<Rightarrow> error + string" where
  "pfm_stream st =
     write_rows (width (hdrHeader st)) (hdrBuffer st) (height (hdrHeader st) - 1)
       (pfm_header (hdrHeader st))"

text \<open>
  \<^verbatim>\<open>void ControlsForm::savePfm(const std::string& fileName) {
    if (!hdrBuffer.empty()) {
      std::ofstream f(fileName, std::ios::binary);
      ... } }\<close>
  The first argument is the file system's answer to an opening; the result is the file
  system afterwards.
\<close>

definition savePfm :: "(string \<Rightarrow> stream_opening) \<Rightarrow> string \<Rightarrow> ControlsForm \<Rightarrow> files \<Rightarrow> error + files" where
  "savePfm open_stream fileName st fs =
     (if hdrBuffer st \<noteq> []
      then (case pfm_stream st of
              Inl e \<Rightarrow> Inl e
            | Inr bytes \<Rightarrow> Inr (deliver (open_stream fileName) fileName bytes fs))
      else Inr fs)"

text \<open>
  The file format as the spec words it: the three header lines, then the rows from the
  bottom one (index \<open>h - 1\<close>) to the top one (index 0), each the \<open>w * 3\<close> samples of its row.
\<close>

definition spec_row :: "nat \<Rightarrow> u32 list \<Rightarrow> nat \<Rightarrow> string" where
  "spec_row w buf r = concat (map sample_bytes (take (w * 3) (drop (r * (w * 3)) buf)))"

definition spec_pfm :: "nat \<Rightarrow> nat \<Rightarrow> u32 list \<Rightarrow> string" where
  "spec_pfm w h buf =
     ''PF'' @ [newline] @ dec w @ '' '' @ dec h @ [newline] @ ''-1.0'' @ [newline]
       @ concat (map (spec_row w buf) (rev [0..<h]))"

text \<open>
  A completed frame: the buffer holds exactly the \<open>width * height * 3\<close> samples of the
  header's dimensions.
\<close>

definition completed_frame :: "ControlsForm \<Rightarrow> bool" where
  "completed_frame st \<longleftrightarrow>
     int (length (hdrBuffer st)) = width (hdrHeader st) * height (hdrHeader st) * 3"

section \<open>The process\<close>

text \<open>
  What \<open>main\<close> meets outside itself is given by an environment: the outcome of parsing the
  command line, of loading the JSON file, of the connection attempt, of constructing the
  packet endpoints, the GUI object, the render client and the video preview, of
  initialising the GUI, and the answers of \<^verbatim>\<open>gui.BeginFrame()\<close> call by call. The handler of
  \<open>main\<close> catches \<^verbatim>\<open>std::runtime_error\<close> and what derives from it, and nothing else.
\<close>

datatype exn = Runtime_error string | Other_exception string

record options =
  opt_log_level :: string
  opt_nif_paths :: string
  opt_host :: string
  opt_port :: int
  opt_width :: int
  opt_height :: int
  opt_kinect :: bool

datatype parsed = Options options | Help | Rejected string

record environment =
  command_line :: parsed
  read_json :: "string \<Rightarrow> exn + (string \<times> string) list"
  tcp_connect :: "string \<Rightarrow> int \<Rightarrow> bool"
  construct_session :: "exn option"
  gui_initialize :: "int \<Rightarrow> int \<Rightarrow> bool"
  begin_frame :: "nat \<Rightarrow> bool"

datatype event =
    Print_help
  | Log string
  | Connect_attempt string int
  | Gui_initialize int int
  | Frame_shown
  | Gui_cleanup
  | Connection_closed

datatype outcome = Exit int | Terminate

definition EXIT_SUCCESS :: int where
  "EXIT_SUCCESS = 0"

definition EXIT_FAILURE :: int where
  "EXIT_FAILURE = 1"


text \<open>
  \<^verbatim>\<open>while (gui.BeginFrame()) { ... gui.EndFrame(); }\<close>
  The loop runs for as long as the GUI asks for another frame, which may be forever; the
  result is the number of frames shown.
\<close>

partial_function (option) frame_loop :: "(nat \<Rightarrow> bool) \<Rightarrow> nat \<Rightarrow> nat option" where
  "frame_loop bf i = (if bf i then frame_loop bf (Suc i) else Some i)"

text \<open>
  \<open>parseOptions\<close> throws \<^verbatim>\<open>std::runtime_error("Show help")\<close> for \<^verbatim>\<open>--help\<close>, and the option
  library throws for a command line it rejects; \<open>main\<close> calls it before its \<^verbatim>\<open>try\<close> block, so
  either exception ends the process through \<^verbatim>\<open>std::terminate\<close>.
\<close>

text \<open>
  \<^verbatim>\<open>} catch (const std::runtime_error& e) {
    std::string error_msg = std::string("Error: ") + std::string(e.what());
    BOOST_LOG_TRIVIAL(error) << error_msg << std::endl;
    return EXIT_FAILURE;
  }\<close>
  The logged text ends with the newline of \<^verbatim>\<open>std::endl\<close>. An exception of another type
  passes the handler by and ends the process through \<^verbatim>\<open>std::terminate\<close>.
\<close>

definition catch_in_main :: "exn \<Rightarrow> event list \<Rightarrow> (outcome \<times> event list) option" where
  "catch_in_main e trace =
     (case e of
        Runtime_error what \<Rightarrow>
          Some (Exit EXIT_FAILURE, trace @ [Log (''Error: '' @ what @ [newline])])
      | Other_exception what \<Rightarrow> Some (Terminate, trace))"

definition load_nif_models :: "environment \<Rightarrow> options \<Rightarrow> exn + (string \<times> string) list" where
  "load_nif_models env args =
     (if opt_nif_paths args \<noteq> [] then read_json env (opt_nif_paths args) else Inr [])"

definition run_gui :: "environment \<Rightarrow> options \<Rightarrow> event list \<Rightarrow> (outcome \<times> event list) option" where
  "run_gui env args trace =
     (if \<not> gui_initialize env (opt_width args) (opt_height args)
      then Some (Exit 1, trace @ [Gui_initialize (opt_width args) (opt_height args)])
      else (case frame_loop (begin_frame env) 0 of
              None \<Rightarrow> None
            | Some n \<Rightarrow>
                Some (Exit EXIT_SUCCESS,
                      trace @ [Gui_initialize (opt_width args) (opt_height args)]
                        @ replicate n Frame_shown @ [Gui_cleanup, Connection_closed])))"

definition main :: "environment \<Rightarrow> (outcome \<times> event list) option" where
  "main env =
     (case command_line env of
        Help \<Rightarrow> Some (Terminate, [Print_help])
      | Rejected what \<Rightarrow> Some (Terminate, [])
      | Options args \<Rightarrow>
          (case load_nif_models env args of
             Inl e \<Rightarrow> catch_in_main e []
           | Inr remoteNifModels \<Rightarrow>
               (let trace = [Connect_attempt (opt_host args) (opt_port args)]
                in if \<not> tcp_connect env (opt_host args) (opt_port args)
                   then catch_in_main (Runtime_error ''Unable to connect'')
                          (trace @ [Log (''Could not conect to server '' @ opt_host args @ '':''
                                          @ to_string (opt_port args))])
                   else (let trace = trace @ [Log (''Connected to server '' @ opt_host args @ '':''
                                                    @ to_string (opt_port args))]
                         in case construct_session env of
                              Some e \<Rightarrow> catch_in_main e trace
                            | None \<Rightarrow> run_gui env args trace))))"

text \<open>
  The options as \<open>getOptions\<close> defaults them, and environments for them: one where
  everything succeeds and the GUI asks to stop after two frames, and the same with one
  thing going wrong: a server that refuses the connection, a model list that cannot be
  read, a session object whose constructor throws a \<^verbatim>\<open>std::runtime_error\<close> or a
  \<^verbatim>\<open>std::bad_alloc\<close>, a GUI that does not initialise, the command line \<^verbatim>\<open>--help\<close>, and a
  command line the option library rejects.
\<close>

definition default_options :: options where
  "default_options =
     \<lparr>opt_log_level = ''info'', opt_nif_paths = [], opt_host = ''localhost'', opt_port = 3000,
      opt_width = 1320, opt_height = 800, opt_kinect = False\<rparr>"

definition env_ok :: environment where
  "env_ok =
     \<lparr>command_line = Options default_options, read_json = (\<lambda>file. Inr []),
      tcp_connect = (\<lambda>host port. True), construct_session = None,
      gui_initialize = (\<lambda>w h. True), begin_frame = (\<lambda>i. i < 2)\<rparr>"




definition env_out_of_memory :: environment where
  "env_out_of_memory = env_ok\<lparr>construct_session := Some (Other_exception ''std::bad_alloc'')\<rparr>"

definition env_models_out_of_memory :: environment where
  "env_models_out_of_memory =
     env_ok\<lparr>command_line := Options (default_options\<lparr>opt_nif_paths := ''models.json''\<rparr>),
            read_json := (\<lambda>file. Inl (Other_exception ''std::bad_alloc''))\<rparr>"




text \<open>
  Two small completed frames: one of two pixels side by side, one of two pixels on top of
  each other. The samples are the \<^verbatim>\<open>float\<close>s 1, 0.5, 0.25, 2, 4 and 8 as stored.
\<close>

definition six_samples :: "u32 list" where
  "six_samples = [0x3F800000, 0x3F000000, 0x3E800000, 0x40000000, 0x40800000, 0x41000000]"

definition frame_2x1 :: ControlsForm where
  "frame_2x1 = (initial_form [])\<lparr>hdrHeader := \<lparr>width = 2, height = 1\<rparr>, hdrBuffer := six_samples\<rparr>"

definition frame_1x2 :: ControlsForm where
  "frame_1x2 = (initial_form [])\<lparr>hdrHeader := \<lparr>width = 1, height = 2\<rparr>, hdrBuffer := six_samples\<rparr>"

text \<open>The \<^verbatim>\<open>float\<close> nearest to 1.5708, a quarter turn in radians.\<close>

definition fov_quarter_turn :: ieee where
  "fov_quarter_turn = round32 False (15708 / 10000)"

section \<open>Properties of rounding\<close>

lemma round_half_even_of_int: "round_half_even (of_int k) = k"
  by (simp add: round_half_even_def)

lemma round_half_even_lower: "q - 1 / 2 \<le> of_int (round_half_even q)"
  unfolding round_half_even_def Let_def by (simp; linarith)

lemma round_half_even_upper: "of_int (round_half_even q) \<le> q + 1 / 2"
  unfolding round_half_even_def Let_def by (simp; linarith)

lemma round_half_even_mono:
  assumes "q \<le> r"
  shows "round_half_even q \<le> round_half_even r"
proof -
  have fl: "\<lfloor>q\<rfloor> \<le> \<lfloor>r\<rfloor>"
    using assms by (rule floor_mono)
  show ?thesis
  proof (cases "\<lfloor>q\<rfloor> = \<lfloor>r\<rfloor>")
    case True
    then have "q - of_int \<lfloor>q\<rfloor> \<le> r - of_int \<lfloor>r\<rfloor>"
      using assms by simp
    with True show ?thesis
      unfolding round_half_even_def Let_def by auto
  next
    case False
    with fl have "\<lfloor>q\<rfloor> + 1 \<le> \<lfloor>r\<rfloor>"
      by simp
    moreover have "round_half_even q \<le> \<lfloor>q\<rfloor> + 1"
      unfolding round_half_even_def Let_def by simp
    moreover have "\<lfloor>r\<rfloor> \<le> round_half_even r"
      unfolding round_half_even_def Let_def by simp
    ultimately show ?thesis
      by linarith
  qed
qed

lemma bexp_upper: "y < 2 ^ (p + bexp p y)"
proof (induction p y rule: bexp.induct)
  case (1 p y)
  show ?case
  proof (cases "y < 2 ^ p")
    case True
    then show ?thesis by (subst bexp.simps) simp
  next
    case False
    with "1.IH" have "y / 2 < 2 ^ (p + bexp p (y / 2))"
      by simp
    with False show ?thesis
      by (subst bexp.simps) simp
  qed
qed

lemma bexp_lower: "0 < bexp p y \<Longrightarrow> 2 ^ (p + bexp p y) \<le> 2 * y"
proof (induction p y rule: bexp.induct)
  case (1 p y)
  from "1.prems" have big: "\<not> y < 2 ^ p"
    by (subst (asm) bexp.simps) (simp split: if_splits)
  then have eq: "bexp p y = Suc (bexp p (y / 2))"
    by (subst bexp.simps) simp
  show ?case
  proof (cases "bexp p (y / 2) = 0")
    case True
    with eq big show ?thesis by simp
  next
    case False
    with "1.IH" big have "2 ^ (p + bexp p (y / 2)) \<le> 2 * (y / 2)"
      by simp
    with eq show ?thesis by simp
  qed
qed

lemma bexp_mono: "y \<le> z \<Longrightarrow> bexp p y \<le> bexp p z"
proof (induction p y arbitrary: z rule: bexp.induct)
  case (1 p y)
  show ?case
  proof (cases "y < 2 ^ p")
    case True
    then have "bexp p y = 0" by (subst bexp.simps) simp
    then show ?thesis by simp
  next
    case False
    with "1.prems" have zbig: "\<not> z < 2 ^ p"
      by simp
    from "1.prems" have "y / 2 \<le> z / 2"
      by simp
    with "1.IH" False have "bexp p (y / 2) \<le> bexp p (z / 2)"
      by simp
    moreover have "bexp p y = Suc (bexp p (y / 2))"
      using False by (subst bexp.simps) simp
    moreover have "bexp p z = Suc (bexp p (z / 2))"
      using zbig by (subst bexp.simps) simp
    ultimately show ?thesis by simp
  qed
qed

lemma bexp_eq:
  "2 ^ (p + k) \<le> 2 * y \<Longrightarrow> y < 2 ^ (p + k) \<Longrightarrow> 0 < k \<Longrightarrow> bexp p y = k"
proof (induction k arbitrary: y)
  case 0
  then show ?case by simp
next
  case (Suc k)
  from Suc.prems have "(2::real) ^ (p + k) \<le> y"
    by simp
  moreover have "(2::real) ^ p \<le> 2 ^ (p + k)"
    by (rule power_increasing) simp_all
  ultimately have big: "\<not> y < 2 ^ p"
    by linarith
  have "bexp p (y / 2) = k"
  proof (cases k)
    case 0
    with Suc.prems show ?thesis by (subst bexp.simps) simp
  next
    case (Suc j)
    with Suc.prems Suc.IH [of "y / 2"] show ?thesis by simp
  qed
  with big show ?case
    by (subst bexp.simps) simp
qed


lemma scaled_round_mono:
  assumes "y \<le> z"
  shows "of_int (round_half_even (y / 2 ^ bexp (Suc p) y)) * (2::real) ^ bexp (Suc p) y
         \<le> of_int (round_half_even (z / 2 ^ bexp (Suc p) z)) * 2 ^ bexp (Suc p) z"
proof -
  define a where "a = bexp (Suc p) y"
  define b where "b = bexp (Suc p) z"
  have ab: "a \<le> b"
    unfolding a_def b_def using assms by (rule bexp_mono)
  show ?thesis
    unfolding a_def [symmetric] b_def [symmetric]
  proof (cases "a = b")
    case True
    have "y / 2 ^ b \<le> z / 2 ^ b"
      using assms by (simp add: divide_right_mono)
    then have "round_half_even (y / 2 ^ b) \<le> round_half_even (z / 2 ^ b)"
      by (rule round_half_even_mono)
    then have "real_of_int (round_half_even (y / 2 ^ b)) \<le> real_of_int (round_half_even (z / 2 ^ b))"
      by simp
    then show "real_of_int (round_half_even (y / 2 ^ a)) * 2 ^ a
               \<le> real_of_int (round_half_even (z / 2 ^ b)) * 2 ^ b"
      unfolding True by (simp add: mult_right_mono)
  next
    case False
    with ab have lt: "Suc a \<le> b"
      by simp
    have "y < 2 ^ (Suc p + a)"
      unfolding a_def by (rule bexp_upper)
    then have "y / 2 ^ a \<le> of_int (2 ^ Suc p)"
      by (simp add: power_add field_simps)
    then have "round_half_even (y / 2 ^ a) \<le> round_half_even (of_int (2 ^ Suc p))"
      by (rule round_half_even_mono)
    then have "real_of_int (round_half_even (y / 2 ^ a)) \<le> 2 ^ Suc p"
      unfolding round_half_even_of_int by (metis of_int_le_iff of_int_numeral of_int_power)
    then have left: "real_of_int (round_half_even (y / 2 ^ a)) * 2 ^ a \<le> 2 ^ Suc p * 2 ^ a"
      by (simp add: mult_right_mono)
    from lt have "0 < bexp (Suc p) z"
      unfolding b_def by simp
    then have "2 ^ (Suc p + b) \<le> 2 * z"
      unfolding b_def by (rule bexp_lower)
    then have "of_int (2 ^ p) \<le> z / 2 ^ b"
      by (simp add: power_add field_simps)
    then have "round_half_even (of_int (2 ^ p)) \<le> round_half_even (z / 2 ^ b)"
      by (rule round_half_even_mono)
    then have "(2::real) ^ p \<le> real_of_int (round_half_even (z / 2 ^ b))"
      unfolding round_half_even_of_int by (metis of_int_le_iff of_int_numeral of_int_power)
    then have right: "(2::real) ^ p * 2 ^ b \<le> real_of_int (round_half_even (z / 2 ^ b)) * 2 ^ b"
      by (simp add: mult_right_mono)
    have "(2::real) ^ (Suc p + a) \<le> 2 ^ (p + b)"
      using lt by (intro power_increasing) simp_all
    then have "(2::real) ^ Suc p * 2 ^ a \<le> 2 ^ p * 2 ^ b"
      by (simp only: power_add)
    with left right show "real_of_int (round_half_even (y / 2 ^ a)) * 2 ^ a
               \<le> real_of_int (round_half_even (z / 2 ^ b)) * 2 ^ b"
      by linarith
  qed
qed

lemma round_mag_mono:
  assumes "m \<le> n"
  shows "round_mag (Suc p) sc m \<le> round_mag (Suc p) sc n"
proof -
  have "m * 2 ^ sc \<le> n * 2 ^ sc"
    using assms by (simp add: mult_right_mono)
  then show ?thesis
    unfolding round_mag_def Let_def
    by (intro divide_right_mono scaled_round_mono) simp_all
qed

lemma round_mag_24_0: "round_mag 24 149 0 = 0"
  by (simp add: round_mag_def round_half_even_def)

lemma round_mag_24_16: "round_mag 24 149 16 = 16"
  apply (simp add: round_mag_def bexp.simps)
  apply (simp add: round_half_even_def)
  done


lemma round_mag_error:
  assumes "2 ^ p \<le> 2 * (x * 2 ^ sc)"
  shows "\<bar>round_mag p sc x - x\<bar> \<le> x / 2 ^ p"
proof -
  define y where "y = x * 2 ^ sc"
  define k where "k = bexp p y"
  define r where "r = real_of_int (round_half_even (y / 2 ^ k))"
  have "\<bar>r - y / 2 ^ k\<bar> \<le> 1 / 2"
    unfolding r_def
    using round_half_even_lower [of "y / 2 ^ k"] round_half_even_upper [of "y / 2 ^ k"]
    by linarith
  then have "\<bar>r - y / 2 ^ k\<bar> * 2 ^ k \<le> 1 / 2 * 2 ^ k"
    by (rule mult_right_mono) simp
  moreover have "\<bar>r - y / 2 ^ k\<bar> * 2 ^ k = \<bar>(r - y / 2 ^ k) * 2 ^ k\<bar>"
    by (rule abs_mult_pos) simp
  moreover have "(r - y / 2 ^ k) * 2 ^ k = r * 2 ^ k - y"
    by (simp add: left_diff_distrib)
  ultimately have err: "\<bar>r * 2 ^ k - y\<bar> \<le> 2 ^ k / 2"
    by simp
  have half: "(2::real) ^ k / 2 \<le> y / 2 ^ p"
  proof (cases "k = 0")
    case True
    with assms show ?thesis
      by (simp add: y_def field_simps)
  next
    case False
    then have "2 ^ (p + k) \<le> 2 * y"
      unfolding k_def by (intro bexp_lower) simp
    then show ?thesis
      by (simp add: power_add field_simps)
  qed
  have "round_mag p sc x - x = (r * 2 ^ k - y) / 2 ^ sc"
    by (simp add: round_mag_def Let_def y_def k_def r_def diff_divide_distrib)
  then have "\<bar>round_mag p sc x - x\<bar> = \<bar>r * 2 ^ k - y\<bar> / 2 ^ sc"
    by simp
  also have "\<dots> \<le> (y / 2 ^ p) / 2 ^ sc"
  proof (rule divide_right_mono)
    show "\<bar>r * 2 ^ k - y\<bar> \<le> y / 2 ^ p"
      using err half by (rule order_trans)
  qed simp
  also have "\<dots> = x / 2 ^ p"
    by (simp add: y_def)
  finally show ?thesis .
qed

lemma round_mag_24_1: "round_mag 24 149 1 = 1"
  apply (simp add: round_mag_def bexp.simps)
  apply (simp add: round_half_even_def)
  done

lemma round_mag_24_tie_above_1: "round_mag 24 149 (1 + 1 / 2 ^ 24) = 1"
  apply (simp add: round_mag_def bexp.simps)
  apply (simp add: round_half_even_def)
  done

lemma round_mag_24_below_1: "round_mag 24 149 (1 - 1 / 2 ^ 24) = 1 - 1 / 2 ^ 24"
  apply (simp add: round_mag_def bexp.simps)
  apply (simp add: round_half_even_def)
  done

lemma round_mag_24_pow32: "round_mag 24 149 (2 ^ 32) = 2 ^ 32"
  apply (simp add: round_mag_def bexp.simps)
  apply (simp add: round_half_even_def)
  done

lemma round_mag_24_inv_pow32: "round_mag 24 149 (1 / 2 ^ 32) = 1 / 2 ^ 32"
  apply (simp add: round_mag_def bexp.simps)
  apply (simp add: round_half_even_def)
  done

section \<open>The rounding on known values\<close>

text \<open>
  The \<^verbatim>\<open>float\<close> nearest to one tenth is \<^verbatim>\<open>0x3DCCCCCD\<close>; the \<^verbatim>\<open>double\<close> nearest to it has the
  significand \<^verbatim>\<open>0x1999999999999A\<close>. Half the smallest subnormal is a tie and goes to the
  even neighbour, zero; one and a half times it goes up to twice it. The largest finite
  \<^verbatim>\<open>float\<close> is \<open>2 ^ 128 - 2 ^ 104\<close>; from half a unit above it the result is infinite.
\<close>

lemma round32_one_tenth: "round32 False (1 / 10) = Finite (13421773 / 134217728)"
  by (simp add: round32_def round_mag_def bexp.simps, simp add: round_half_even_def mk_finite_def)

lemma round64_one_tenth: "round64 False (1 / 10) = Finite (3602879701896397 / 36028797018963968)"
proof -
  have b: "bexp 53 (1 / 10 * 2 ^ 1074) = 1018"
    by (rule bexp_eq) simp_all
  have "round_mag 53 1074 (1 / 10) = 3602879701896397 / 36028797018963968"
    unfolding round_mag_def Let_def b by (simp add: round_half_even_def)
  then show ?thesis
    by (simp add: round64_def mk_finite_def)
qed

lemma round32_subnormal_ties:
  "round32 False (1 / 2 ^ 150) = Finite 0"
  "round32 True (1 / 2 ^ 150) = NegZero"
  "round32 False (3 / 2 ^ 150) = Finite (1 / 2 ^ 148)"
  by (simp add: round32_def round_mag_def bexp.simps, simp add: round_half_even_def mk_finite_def)+

lemma round32_overflow:
  "round32 False (2 ^ 128 - 2 ^ 104) = Finite (2 ^ 128 - 2 ^ 104)"
  "round32 False (2 ^ 128 - 2 ^ 103 - 1) = Finite (2 ^ 128 - 2 ^ 104)"
  "round32 False (2 ^ 128 - 2 ^ 103) = Infinity False"
  by (simp add: round32_def round_mag_def bexp.simps, simp add: round_half_even_def mk_finite_def)+

section \<open>The sample-count conversion stays between 1 and 16\<close>

lemma unit_round_bounds:
  assumes "0 \<le> q" "q \<le> 1"
  shows "0 \<le> round_mag 24 149 (q * 16)" "round_mag 24 149 (q * 16) \<le> 16"
proof -
  have "round_mag (Suc 23) 149 0 \<le> round_mag (Suc 23) 149 (q * 16)"
    using assms by (intro round_mag_mono) simp
  then show "0 \<le> round_mag 24 149 (q * 16)"
    by (simp add: round_mag_24_0)
  have "round_mag (Suc 23) 149 (q * 16) \<le> round_mag (Suc 23) 149 16"
    using assms by (intro round_mag_mono) simp
  then show "round_mag 24 149 (q * 16) \<le> 16"
    by (simp add: round_mag_24_16)
qed

lemma unit_count_bounds:
  assumes "0 \<le> q" "q \<le> 1"
  shows "0 \<le> unit_count q" "unit_count q \<le> 16"
  using unit_round_bounds [OF assms] unfolding unit_count_def
  by (simp_all add: floor_le_iff) 

lemma unit_count_mono: "q \<le> r \<Longrightarrow> unit_count q \<le> unit_count r"
  unfolding unit_count_def
  using round_mag_mono [of "q * 16" "r * 16" 23 149] by (simp add: floor_mono)

lemma convertSampleValue_Finite:
  assumes "0 \<le> q" "q \<le> 1"
  shows "convertSampleValue (Finite q) = Some (max (word_of_int (unit_count q)) 1)"
proof -
  note b = unit_round_bounds [OF assms]
  have "fmul round32 (Finite q) (Finite 16) = Finite (round_mag 24 149 (q * 16))"
    using assms b by (simp add: round32_def mk_finite_def Let_def)
  then show ?thesis
    using b by (simp add: convertSampleValue_def unit_count_def)
qed

lemma convertSampleValue_NegZero: "convertSampleValue NegZero = Some 1"
  by (simp add: convertSampleValue_def round32_def mk_finite_def round_mag_24_0)

lemma unit_cases:
  assumes "fle (Finite 0) v" "fle v (Finite 1)"
  shows "v = NegZero \<or> (\<exists>q. v = Finite q \<and> 0 \<le> q \<and> q \<le> 1)"
  using assms by (cases v) auto

lemma word_of_count_le:
  assumes "0 \<le> a" "a \<le> b" "b \<le> 16"
  shows "(word_of_int a :: u32) \<le> word_of_int b"
  using assms by (simp add: word_le_def uint_word_of_int) 

lemma word_of_count_le_16:
  assumes "0 \<le> a" "a \<le> 16"
  shows "(word_of_int a :: u32) \<le> 16"
  using word_of_count_le [of a 16] assms by simp

lemma unit_count_0: "unit_count 0 = 0"
  by (simp add: unit_count_def round_mag_24_0)

lemma convertSampleValue_unit:
  assumes "fle (Finite 0) v" "fle v (Finite 1)"
  shows "convertSampleValue v = Some (max (word_of_int (unit_count (valof v))) 1)"
  using unit_cases [OF assms]
  by (auto simp: convertSampleValue_Finite convertSampleValue_NegZero unit_count_0)

lemma unit_valof:
  assumes "fle (Finite 0) v" "fle v (Finite 1)"
  shows "0 \<le> valof v" "valof v \<le> 1"
  using unit_cases [OF assms] by auto

lemma unit_chain:
  assumes "fle (Finite 0) v1" "fle v1 v2" "fle v2 (Finite 1)"
  shows "fle v1 (Finite 1)" "fle (Finite 0) v2" "valof v1 \<le> valof v2"
  using assms by (cases v1; cases v2; simp)+

text \<open>
  Claim C6. On every \<^verbatim>\<open>float\<close> of the interval from 0 to 1, both zeros included,
  \<open>convertSampleValue\<close> returns a count (the conversion to the unsigned integer is
  defined there), the count is at least 1, and a larger input never gives a smaller count.
\<close>

theorem convertSampleValue_total_positive_monotone:
  assumes "fle (Finite 0) v1" "fle v1 v2" "fle v2 (Finite 1)"
  shows "\<exists>n1 n2. convertSampleValue v1 = Some n1 \<and> convertSampleValue v2 = Some n2
           \<and> 1 \<le> n1 \<and> 1 \<le> n2 \<and> n1 \<le> n2"
proof -
  note c = unit_chain [OF assms]
  define k1 where "k1 = unit_count (valof v1)"
  define k2 where "k2 = unit_count (valof v2)"
  have r1: "convertSampleValue v1 = Some (max (word_of_int k1) 1)"
    unfolding k1_def using assms(1) c(1) by (rule convertSampleValue_unit)
  have r2: "convertSampleValue v2 = Some (max (word_of_int k2) 1)"
    unfolding k2_def using c(2) assms(3) by (rule convertSampleValue_unit)
  have "0 \<le> k1"
    unfolding k1_def using unit_valof [OF assms(1) c(1)] by (intro unit_count_bounds)
  moreover have "k1 \<le> k2"
    unfolding k1_def k2_def using c(3) by (rule unit_count_mono)
  moreover have "k2 \<le> 16"
    unfolding k2_def using unit_valof [OF c(2) assms(3)] by (intro unit_count_bounds)
  ultimately have "(word_of_int k1 :: u32) \<le> word_of_int k2"
    by (rule word_of_count_le)
  then have "max (word_of_int k1 :: u32) 1 \<le> max (word_of_int k2) 1"
    by (simp add: max.coboundedI1)
  with r1 r2 show ?thesis
    by simp
qed

theorem convertSampleValue_total_positive_monotone_witness:
  "fle (Finite 0) (Finite (1 / 4)) \<and> fle (Finite (1 / 4)) (Finite (3 / 4)) \<and> fle (Finite (3 / 4)) (Finite 1)
   \<and> (\<exists>n1 n2. convertSampleValue (Finite (1 / 4)) = Some n1 \<and> convertSampleValue (Finite (3 / 4)) = Some n2
           \<and> 1 \<le> n1 \<and> 1 \<le> n2 \<and> n1 \<le> n2)
   \<and> convertSampleValue (Finite (1 / 4)) = Some 4
   \<and> convertSampleValue (Finite (3 / 4)) = Some 12"
proof -
  have r: "round32 False 4 = Finite 4" "round32 False 12 = Finite 12"
    by (simp add: round32_def round_mag_def bexp.simps, simp add: round_half_even_def mk_finite_def)+
  have "convertSampleValue (Finite (1 / 4)) = Some 4" "convertSampleValue (Finite (3 / 4)) = Some 12"
    by (simp_all add: convertSampleValue_def r)
  with convertSampleValue_total_positive_monotone [of "Finite (1 / 4)" "Finite (3 / 4)"]
  show ?thesis
    by simp
qed

text \<open>
  Claim C10. On every \<^verbatim>\<open>float\<close> of the interval from 0 to 1 the count returned by
  \<open>convertSampleValue\<close> lies between 1 and 16.
\<close>

theorem convertSampleValue_at_most_16:
  assumes "fle (Finite 0) v" "fle v (Finite 1)"
  shows "\<exists>n. convertSampleValue v = Some n \<and> 1 \<le> n \<and> n \<le> 16"
proof -
  define k where "k = unit_count (valof v)"
  have r: "convertSampleValue v = Some (max (word_of_int k) 1)"
    unfolding k_def using assms by (rule convertSampleValue_unit)
  have "0 \<le> k" "k \<le> 16"
    unfolding k_def using unit_valof [OF assms] by (simp_all add: unit_count_bounds)
  then have "(word_of_int k :: u32) \<le> 16"
    by (rule word_of_count_le_16)
  then have "max (word_of_int k :: u32) 1 \<le> 16"
    by simp
  with r show ?thesis
    by simp
qed

theorem convertSampleValue_at_most_16_witness:
  "fle (Finite 0) (Finite 1) \<and> fle (Finite 1) (Finite 1)
   \<and> (\<exists>n. convertSampleValue (Finite 1) = Some n \<and> 1 \<le> n \<and> n \<le> 16)
   \<and> convertSampleValue (Finite 1) = Some 16"
proof -
  have r: "round32 False 16 = Finite 16"
    by (simp add: round32_def round_mag_def bexp.simps, simp add: round_half_even_def mk_finite_def)
  have "convertSampleValue (Finite 1) = Some 16"
    by (simp add: convertSampleValue_def r)
  with convertSampleValue_at_most_16 [of "Finite 1"] show ?thesis
    by simp
qed

section \<open>The all-zero histogram\<close>

lemma float_of_u32_0: "float_of_u32 0 = Finite 0"
  by (simp add: float_of_u32_def round32_def round_mag_24_0 mk_finite_def)

lemma histogram_max_all_zero: "histogram_max (replicate n 0) = 0"
  unfolding histogram_max_def by (induction n) simp_all

lemma all_zero_histogram_is_NaN:
  "graph_values (tile_histogram_callback (replicate n 0) g) = replicate n NaN"
  by (simp add: tile_histogram_callback_def histogram_max_all_zero float_of_u32_0 map_replicate_const)

text \<open>
  Claim C1. On the all-zero histogram of three tiles the callback divides by zero:
  the maximum is 0, the scale \<open>1 / 0\<close> is the positive infinity, and every plotted value
  is \<open>0 * \<infinity>\<close>, a NaN, where the claim asks for 0.0. The length is the input's. The
  same happens for an all-zero histogram of any length.
\<close>

theorem tile_histogram_all_zero:
  "histogram_max [0, 0, 0] = 0
   \<and> fdiv round32 (Finite 1) (float_of_u32 (histogram_max [0, 0, 0])) = Infinity False
   \<and> graph_values (tile_histogram_callback [0, 0, 0] new_Graph) = [NaN, NaN, NaN]"
  by (simp add: tile_histogram_callback_def histogram_max_def float_of_u32_0)

section \<open>Export before the first frame\<close>

lemma subs_ControlsForm_new:
  "subs (ControlsForm_new s) = [''fov'' \<mapsto> FovSubscription, ''tile_histogram'' \<mapsto> TileHistogramSubscription]"
  by (simp add: ControlsForm_new_def construct_histogram_def construct_lambda2_def
      construct_lambda1_def construct_Y_def construct_X_def construct_gamma_def
      construct_exposure_def construct_fov_def initial_form_def Let_def
      fovSlider_callback_def exposureSlider_callback_def gammaSlider_callback_def
      XSlider_callback_def YSlider_callback_def lambda1Slider_callback_def
      lambda2Slider_callback_def serialise_def)

lemma hdrBuffer_ControlsForm_new: "hdrBuffer (ControlsForm_new s) = []"
  by (simp add: ControlsForm_new_def construct_histogram_def construct_lambda2_def
      construct_lambda1_def construct_Y_def construct_X_def construct_gamma_def
      construct_exposure_def construct_fov_def initial_form_def Let_def
      fovSlider_callback_def exposureSlider_callback_def gammaSlider_callback_def
      XSlider_callback_def YSlider_callback_def lambda1Slider_callback_def
      lambda2Slider_callback_def serialise_def)

text \<open>
  Claim C2. While the frame buffer is empty, as it is from construction until a frame
  has been stored, \<open>savePfm\<close> returns normally and leaves the file system as it was,
  whatever the file system would answer to an opening: no file is created and no byte
  is written.
\<close>

theorem savePfm_before_first_frame:
  "hdrBuffer st = [] \<Longrightarrow> savePfm open_stream fileName st fs = Inr fs"
  by (simp add: savePfm_def)

theorem savePfm_before_first_frame_witness:
  "hdrBuffer (ControlsForm_new []) = []
   \<and> savePfm (\<lambda>name. Accepts None) ''image.pfm'' (ControlsForm_new []) Map.empty = Inr Map.empty"
  using savePfm_before_first_frame [of "ControlsForm_new []" "\<lambda>name. Accepts None" "''image.pfm''" Map.empty]
  by (simp add: hdrBuffer_ControlsForm_new)

section \<open>Remote updates are silent and idempotent\<close>

lemma fov_subscription_fields:
  "sent (fov_subscription v st) = sent st"
  "subs (fov_subscription v st) = subs st"
  "fov_subscription v (fov_subscription v st) = fov_subscription v st"
  by (simp_all add: fov_subscription_def)

lemma tile_histogram_callback_twice:
  "tile_histogram_callback data (tile_histogram_callback data g) = tile_histogram_callback data g"
  by (simp add: tile_histogram_callback_def Let_def)

lemma tile_histogram_subscription_fields:
  "sent (tile_histogram_subscription data st) = sent st"
  "subs (tile_histogram_subscription data st) = subs st"
  "tile_histogram_subscription data (tile_histogram_subscription data st)
   = tile_histogram_subscription data st"
  by (simp_all add: tile_histogram_subscription_def tile_histogram_callback_twice)

text \<open>
  Claim C3. A remote update on any channel, applied through the dispatcher with a
  payload that decodes, sends nothing: the packets handed to the sender are the same
  before and after. Applied a second time it changes nothing at all: the state after the
  second application is the state after the first, displayed values included.
\<close>

theorem remote_update_silent_idempotent:
  assumes "dispatch name p st = Inr st'"
  shows "sent st' = sent st \<and> dispatch name p st' = Inr st'"
proof (cases "subs st name")
  case None
  with assms show ?thesis by auto
next
  case (Some cb)
  show ?thesis
  proof (cases cb)
    case FovSubscription
    with Some assms obtain v where "p = PFloat v" "st' = fov_subscription v st"
      by (cases p) auto
    with Some FovSubscription show ?thesis
      by (simp add: fov_subscription_fields)
  next
    case TileHistogramSubscription
    with Some assms obtain data where "p = PCounts data" "st' = tile_histogram_subscription data st"
      by (cases p) auto
    with Some TileHistogramSubscription show ?thesis
      by (simp add: tile_histogram_subscription_fields)
  qed
qed

theorem remote_update_silent_idempotent_witness:
  "dispatch ''fov'' (PFloat (Finite 1)) (ControlsForm_new [])
     = Inr (fov_subscription (Finite 1) (ControlsForm_new []))
   \<and> sent (fov_subscription (Finite 1) (ControlsForm_new [])) = sent (ControlsForm_new [])
   \<and> dispatch ''fov'' (PFloat (Finite 1)) (fov_subscription (Finite 1) (ControlsForm_new []))
     = Inr (fov_subscription (Finite 1) (ControlsForm_new []))"
proof -
  have d: "dispatch ''fov'' (PFloat (Finite 1)) (ControlsForm_new [])
           = Inr (fov_subscription (Finite 1) (ControlsForm_new []))"
    by (simp add: subs_ControlsForm_new)
  from remote_update_silent_idempotent [OF d] d show ?thesis
    by simp
qed

section \<open>Exit codes\<close>



lemmas main_defs =
  main_def load_nif_models_def run_gui_def catch_in_main_def EXIT_SUCCESS_def EXIT_FAILURE_def
  env_ok_def default_options_def to_string_def dec.simps digit_def






lemma main_env_out_of_memory:
  "main env_out_of_memory = Some (Terminate, [Connect_attempt ''localhost'' 3000,
       Log ''Connected to server localhost:3000''])"
  by (simp add: main_defs env_out_of_memory_def)

lemma main_env_models_out_of_memory:
  "main env_models_out_of_memory = Some (Terminate, [])"
  by (simp add: main_defs env_models_out_of_memory_def)




section \<open>What the constructor publishes\<close>

lemma round32_exact:
  "round32 False (1 / 4) = Finite (1 / 4)"
  "round32 False 90 = Finite 90"
  "round32 False 0 = Finite 0"
  "round32 False (1 / 2) = Finite (1 / 2)"
  "round32 False 640 = Finite 640"
  "round32 False 360 = Finite 360"
  "round32 False 50 = Finite 50"
  "round32 False 5000 = Finite 5000"
  "round32 False (11 / 5) = Finite (9227469 / 4194304)"
  "round32 False (9227469 / 16777216) = Finite (9227469 / 16777216)"
  "round32 False (9227469 / 4194304) = Finite (9227469 / 4194304)"
  by (simp add: round32_def round_mag_def bexp.simps, simp add: round_half_even_def mk_finite_def)+


lemmas construct_defs =
  ControlsForm_new_def construct_histogram_def construct_lambda2_def
  construct_lambda1_def construct_Y_def construct_X_def construct_gamma_def
  construct_exposure_def construct_fov_def initial_form_def
  fovSlider_callback_def exposureSlider_callback_def gammaSlider_callback_def
  XSlider_callback_def YSlider_callback_def lambda1Slider_callback_def
  lambda2Slider_callback_def serialise_def

lemma sent_ControlsForm_new:
  "sent (ControlsForm_new s) =
     s @ [(''fov'', PFloat (Finite 90)), (''exposure'', PFloat (Finite 0)),
          (''gamma'', PFloat (Finite (9227469 / 4194304))), (''X'', PFloat (Finite 640)),
          (''Y'', PFloat (Finite 360)), (''lambda1'', PFloat (Finite 5000)),
          (''lambda2'', PFloat (Finite 5000))]"
  by (simp add: construct_defs Let_def round32_exact mk_finite_def)

lemma sliders_ControlsForm_new:
  "fovSlider (ControlsForm_new s) = Finite (1 / 4)"
  "exposureSlider (ControlsForm_new s) = Finite (1 / 2)"
  "gammaSlider (ControlsForm_new s) = Finite (9227469 / 16777216)"
  "XSlider (ControlsForm_new s) = Finite (1 / 2)"
  "YSlider (ControlsForm_new s) = Finite (1 / 2)"
  "lambda1Slider (ControlsForm_new s) = Finite 50"
  "lambda2Slider (ControlsForm_new s) = Finite 50"
  by (simp_all add: construct_defs Let_def round32_exact mk_finite_def)

text \<open>
  Claim C8, as stated, fails: the rotation wheel is a control binding of the constructor,
  and nothing is sent on its channel during construction.
\<close>

theorem rotation_wheel_not_published:
  "''env_rotation'' \<in> set control_channels
   \<and> length (publishes_on ''env_rotation'' (sent (ControlsForm_new []))) = 0"
  by (simp add: control_channels_def publishes_on_def sent_ControlsForm_new)

text \<open>
  Claim C8, amended. The constructor gives each of the seven sliders its default
  displayed value and sends, once per slider and in the order the sliders are made, the
  domain value of that default on the slider's channel: 90 degrees for \<open>fov\<close>, 0 for
  \<open>exposure\<close>, the \<^verbatim>\<open>float\<close> 2.2 for \<open>gamma\<close>, 640 and 360 for \<open>X\<close> and \<open>Y\<close>, 5000 for both
  \<open>lambda\<close>s. Nothing else is sent: the rotation wheel, the device chooser and the stop
  button send nothing during construction.
\<close>

theorem construction_publishes_slider_defaults:
  "sent (ControlsForm_new s) =
     s @ [(''fov'', PFloat (fmul round32 (fovSlider (ControlsForm_new s)) (Finite 360))),
          (''exposure'', PFloat (fmul round32 (Finite 4)
                                   (fsub round32 (exposureSlider (ControlsForm_new s)) (Finite (1 / 2))))),
          (''gamma'', PFloat (fmul round32 (Finite 4) (gammaSlider (ControlsForm_new s)))),
          (''X'', PFloat (fmul round32 (XSlider (ControlsForm_new s)) (Finite 1280))),
          (''Y'', PFloat (fmul round32 (YSlider (ControlsForm_new s)) (Finite 720))),
          (''lambda1'', PFloat (fmul round32 (lambda1Slider (ControlsForm_new s)) (Finite 100))),
          (''lambda2'', PFloat (fmul round32 (lambda2Slider (ControlsForm_new s)) (Finite 100)))]
   \<and> sent (ControlsForm_new s) =
     s @ [(''fov'', PFloat (Finite 90)), (''exposure'', PFloat (Finite 0)),
          (''gamma'', PFloat (Finite (9227469 / 4194304))), (''X'', PFloat (Finite 640)),
          (''Y'', PFloat (Finite 360)), (''lambda1'', PFloat (Finite 5000)),
          (''lambda2'', PFloat (Finite 5000))]
   \<and> fovSlider (ControlsForm_new s) = Finite (1 / 4)
   \<and> exposureSlider (ControlsForm_new s) = Finite (1 / 2)
   \<and> gammaSlider (ControlsForm_new s) = Finite (9227469 / 16777216)
   \<and> XSlider (ControlsForm_new s) = Finite (1 / 2)
   \<and> YSlider (ControlsForm_new s) = Finite (1 / 2)
   \<and> lambda1Slider (ControlsForm_new s) = Finite 50
   \<and> lambda2Slider (ControlsForm_new s) = Finite 50
   \<and> map (\<lambda>name. length (publishes_on name (sent (ControlsForm_new [])))) control_channels
       = [0, 1, 1, 1, 1, 1, 1, 1, 0, 0]"
  by (simp add: sent_ControlsForm_new sliders_ControlsForm_new round32_exact mk_finite_def
      control_channels_def publishes_on_def)

section \<open>The exported file\<close>

lemma length_sample_bytes: "length (sample_bytes w) = 4"
  by (simp add: sample_bytes_def)

lemma length_concat_sample_bytes: "length (concat (map sample_bytes xs)) = 4 * length xs"
  by (induction xs) (simp_all add: length_sample_bytes)

lemma length_spec_row:
  assumes "(r + 1) * (w * 3) \<le> length buf"
  shows "length (spec_row w buf r) = w * 3 * 4"
proof -
  from assms have "w * 3 \<le> length buf - r * (w * 3)"
    by simp
  then show ?thesis
    by (simp add: spec_row_def length_concat_sample_bytes min_absorb2)
qed

lemma row_bytes_spec:
  assumes "0 \<le> w" and "(k + 1) * (nat w * 3) \<le> length buf"
  shows "row_bytes w buf (int k) = Inr (spec_row (nat w) buf k)"
proof -
  have n: "nat (w * 3) = nat w * 3"
    using assms(1) by (simp add: nat_mult_distrib)
  have start: "nat (int k * w * 3) = k * (nat w * 3)"
    using assms(1) by (simp add: nat_mult_distrib mult.assoc)
  have "int k * w * 3 + w * 3 = int ((k + 1) * (nat w * 3))"
    using assms(1) by (simp add: algebra_simps)
  also have "\<dots> \<le> int (length buf)"
    using assms(2) by (simp only: of_nat_le_iff)
  finally have fits: "int k * w * 3 + w * 3 \<le> int (length buf)" .
  show ?thesis
    using assms(1) fits by (simp add: row_bytes_def spec_row_def n start Let_def)
qed

lemma write_rows_spec:
  assumes "0 \<le> w" and "k * (nat w * 3) \<le> length buf"
  shows "write_rows w buf (int k - 1) out
         = Inr (out @ concat (map (spec_row (nat w) buf) (rev [0..<k])))"
  using assms(2)
proof (induction k arbitrary: out)
  case 0
  show ?case
    by (subst write_rows.simps) simp
next
  case (Suc k)
  from Suc.prems have fits: "(k + 1) * (nat w * 3) \<le> length buf"
    by simp
  then have smaller: "k * (nat w * 3) \<le> length buf"
    by simp
  have row: "row_bytes w buf (int k) = Inr (spec_row (nat w) buf k)"
    using assms(1) fits by (rule row_bytes_spec)
  have "write_rows w buf (int (Suc k) - 1) out
        = write_rows w buf (int k - 1) (out @ spec_row (nat w) buf k)"
    by (subst write_rows.simps) (simp add: row)
  also have "\<dots> = Inr ((out @ spec_row (nat w) buf k) @ concat (map (spec_row (nat w) buf) (rev [0..<k])))"
    using smaller by (rule Suc.IH)
  finally show ?case
    by simp
qed

text \<open>
  Claim C4. For a completed frame whose header has width \<open>w \<ge> 1\<close> and height \<open>h \<ge> 1\<close>,
  the bytes \<open>savePfm\<close> writes to its stream are exactly those of the format: \<open>PF\<close>, a line
  with \<open>w\<close> and \<open>h\<close> in decimal, the line \<open>-1.0\<close>, then the rows of the buffer from row
  \<open>h - 1\<close> down to row 0; every row is \<open>w * 3 * 4\<close> bytes long. When the stream opens
  and takes every write, the named file holds exactly these bytes afterwards; when a
  write fails after \<open>n\<close> bytes it holds the first \<open>n\<close> of them; when the stream does not
  open, the file system is as it was.
\<close>

theorem savePfm_writes_pfm:
  assumes "1 \<le> width (hdrHeader st)" and "1 \<le> height (hdrHeader st)"
    and "completed_frame st"
  shows "pfm_stream st
           = Inr (spec_pfm (nat (width (hdrHeader st))) (nat (height (hdrHeader st))) (hdrBuffer st))
         \<and> (open_stream fileName = Accepts None \<longrightarrow>
              savePfm open_stream fileName st fs
                = Inr (fs(fileName \<mapsto> spec_pfm (nat (width (hdrHeader st)))
                                         (nat (height (hdrHeader st))) (hdrBuffer st))))
         \<and> (open_stream fileName = Accepts (Some n) \<longrightarrow>
              savePfm open_stream fileName st fs
                = Inr (fs(fileName \<mapsto> take n (spec_pfm (nat (width (hdrHeader st)))
                                                 (nat (height (hdrHeader st))) (hdrBuffer st)))))
         \<and> (open_stream fileName = Refused \<longrightarrow> savePfm open_stream fileName st fs = Inr fs)
         \<and> (\<forall>r < nat (height (hdrHeader st)).
               length (spec_row (nat (width (hdrHeader st))) (hdrBuffer st) r)
                 = nat (width (hdrHeader st)) * 3 * 4)"
proof -
  define w where "w = width (hdrHeader st)"
  define h where "h = height (hdrHeader st)"
  define buf where "buf = hdrBuffer st"
  have len: "int (length buf) = w * h * 3"
    using assms(3) by (simp add: completed_frame_def w_def h_def buf_def)
  have wpos: "1 \<le> w" and hpos: "1 \<le> h"
    using assms(1,2) by (simp_all add: w_def h_def)
  have "int (length buf) = int (nat h * (nat w * 3))"
    using len wpos hpos by (simp add: nat_mult_distrib algebra_simps)
  then have len_nat: "length buf = nat h * (nat w * 3)"
    by (simp only: of_nat_eq_iff)
  have "0 < nat h * (nat w * 3)"
    using wpos hpos by simp
  with len_nat have nonempty: "buf \<noteq> []"
    by auto
  have "write_rows w buf (int (nat h) - 1) (pfm_header (hdrHeader st))
        = Inr (pfm_header (hdrHeader st) @ concat (map (spec_row (nat w) buf) (rev [0..<nat h])))"
    using wpos len_nat by (intro write_rows_spec) simp_all
  moreover have "int (nat h) - 1 = h - 1"
    using hpos by simp
  moreover have "pfm_header (hdrHeader st) @ concat (map (spec_row (nat w) buf) (rev [0..<nat h]))
                 = spec_pfm (nat w) (nat h) buf"
    using wpos hpos by (simp add: pfm_header_def spec_pfm_def to_string_def w_def h_def)
  ultimately have "write_rows w buf (h - 1) (pfm_header (hdrHeader st))
                   = Inr (spec_pfm (nat w) (nat h) buf)"
    by simp
  then have stream: "pfm_stream st = Inr (spec_pfm (nat w) (nat h) buf)"
    by (simp add: pfm_stream_def w_def h_def buf_def)
  have saved: "savePfm open_stream fileName st fs
               = Inr (deliver (open_stream fileName) fileName (spec_pfm (nat w) (nat h) buf) fs)"
    using nonempty stream by (simp add: savePfm_def buf_def)
  have all: "open_stream fileName = Accepts None \<longrightarrow>
        savePfm open_stream fileName st fs = Inr (fs(fileName \<mapsto> spec_pfm (nat w) (nat h) buf))"
    by (simp add: saved deliver_def)
  have part: "open_stream fileName = Accepts (Some n) \<longrightarrow>
        savePfm open_stream fileName st fs
          = Inr (fs(fileName \<mapsto> take n (spec_pfm (nat w) (nat h) buf)))"
    by (simp add: saved deliver_def)
  have none: "open_stream fileName = Refused \<longrightarrow> savePfm open_stream fileName st fs = Inr fs"
    by (simp add: saved deliver_def)
  have "length (spec_row (nat w) buf r) = nat w * 3 * 4" if "r < nat h" for r
  proof (rule length_spec_row)
    from that have "r + 1 \<le> nat h"
      by simp
    then have "(r + 1) * (nat w * 3) \<le> nat h * (nat w * 3)"
      by (rule mult_le_mono1)
    with len_nat show "(r + 1) * (nat w * 3) \<le> length buf"
      by simp
  qed
  with stream all part none show ?thesis
    unfolding w_def h_def buf_def by blast
qed

lemma sample_bytes_six:
  "map sample_bytes six_samples =
     [[CHR 0x00, CHR 0x00, CHR 0x80, CHR 0x3F], [CHR 0x00, CHR 0x00, CHR 0x00, CHR 0x3F],
      [CHR 0x00, CHR 0x00, CHR 0x80, CHR 0x3E], [CHR 0x00, CHR 0x00, CHR 0x00, CHR 0x40],
      [CHR 0x00, CHR 0x00, CHR 0x80, CHR 0x40], [CHR 0x00, CHR 0x00, CHR 0x00, CHR 0x41]]"
  by (simp add: six_samples_def sample_bytes_def char_of_def bit_Suc_0_iff)

lemma spec_pfm_2x1:
  "spec_pfm 2 1 six_samples =
     ''PF'' @ [newline] @ ''2 1'' @ [newline] @ ''-1.0'' @ [newline]
     @ [CHR 0x00, CHR 0x00, CHR 0x80, CHR 0x3F, CHR 0x00, CHR 0x00, CHR 0x00, CHR 0x3F,
        CHR 0x00, CHR 0x00, CHR 0x80, CHR 0x3E, CHR 0x00, CHR 0x00, CHR 0x00, CHR 0x40,
        CHR 0x00, CHR 0x00, CHR 0x80, CHR 0x40, CHR 0x00, CHR 0x00, CHR 0x00, CHR 0x41]"
proof -
  have "spec_row 2 six_samples 0 = concat (map sample_bytes six_samples)"
    by (simp add: spec_row_def six_samples_def)
  then show ?thesis
    by (simp add: spec_pfm_def dec.simps digit_def sample_bytes_six)
qed

lemma spec_pfm_1x2:
  "spec_pfm 1 2 six_samples =
     ''PF'' @ [newline] @ ''1 2'' @ [newline] @ ''-1.0'' @ [newline]
     @ [CHR 0x00, CHR 0x00, CHR 0x00, CHR 0x40, CHR 0x00, CHR 0x00, CHR 0x80, CHR 0x40,
        CHR 0x00, CHR 0x00, CHR 0x00, CHR 0x41]
     @ [CHR 0x00, CHR 0x00, CHR 0x80, CHR 0x3F, CHR 0x00, CHR 0x00, CHR 0x00, CHR 0x3F,
        CHR 0x00, CHR 0x00, CHR 0x80, CHR 0x3E]"
proof -
  have rows: "rev [0..<2] = [1, 0]"
    by (simp add: numeral_2_eq_2)
  have "map sample_bytes (take 3 (drop 3 six_samples)) = take 3 (drop 3 (map sample_bytes six_samples))"
    by (simp add: take_map drop_map)
  then have r1: "spec_row 1 six_samples 1
      = [CHR 0x00, CHR 0x00, CHR 0x00, CHR 0x40, CHR 0x00, CHR 0x00, CHR 0x80, CHR 0x40,
         CHR 0x00, CHR 0x00, CHR 0x00, CHR 0x41]"
    by (simp add: spec_row_def sample_bytes_six)
  have "map sample_bytes (take 3 six_samples) = take 3 (map sample_bytes six_samples)"
    by (simp add: take_map)
  then have r0: "spec_row 1 six_samples 0
      = [CHR 0x00, CHR 0x00, CHR 0x80, CHR 0x3F, CHR 0x00, CHR 0x00, CHR 0x00, CHR 0x3F,
         CHR 0x00, CHR 0x00, CHR 0x80, CHR 0x3E]"
    by (simp add: spec_row_def sample_bytes_six)
  show ?thesis
    using r1 r0 by (simp add: spec_pfm_def rows dec.simps digit_def)
qed

theorem savePfm_writes_pfm_witness:
  "1 \<le> width (hdrHeader frame_2x1) \<and> 1 \<le> height (hdrHeader frame_2x1) \<and> completed_frame frame_2x1
   \<and> pfm_stream frame_2x1
       = Inr (''PF'' @ [newline] @ ''2 1'' @ [newline] @ ''-1.0'' @ [newline]
           @ [CHR 0x00, CHR 0x00, CHR 0x80, CHR 0x3F, CHR 0x00, CHR 0x00, CHR 0x00, CHR 0x3F,
              CHR 0x00, CHR 0x00, CHR 0x80, CHR 0x3E, CHR 0x00, CHR 0x00, CHR 0x00, CHR 0x40,
              CHR 0x00, CHR 0x00, CHR 0x80, CHR 0x40, CHR 0x00, CHR 0x00, CHR 0x00, CHR 0x41])
   \<and> savePfm (\<lambda>name. Accepts None) ''image.pfm'' frame_2x1 Map.empty
       = Inr [''image.pfm'' \<mapsto>
           ''PF'' @ [newline] @ ''2 1'' @ [newline] @ ''-1.0'' @ [newline]
           @ [CHR 0x00, CHR 0x00, CHR 0x80, CHR 0x3F, CHR 0x00, CHR 0x00, CHR 0x00, CHR 0x3F,
              CHR 0x00, CHR 0x00, CHR 0x80, CHR 0x3E, CHR 0x00, CHR 0x00, CHR 0x00, CHR 0x40,
              CHR 0x00, CHR 0x00, CHR 0x80, CHR 0x40, CHR 0x00, CHR 0x00, CHR 0x00, CHR 0x41]]
   \<and> savePfm (\<lambda>name. Accepts (Some 7)) ''image.pfm'' frame_2x1 Map.empty
       = Inr [''image.pfm'' \<mapsto> ''PF'' @ [newline] @ ''2 1'' @ [newline]]
   \<and> savePfm (\<lambda>name. Refused) ''image.pfm'' frame_2x1 Map.empty = Inr Map.empty
   \<and> length (spec_row 2 six_samples 0) = 24
   \<and> 1 \<le> width (hdrHeader frame_1x2) \<and> 1 \<le> height (hdrHeader frame_1x2) \<and> completed_frame frame_1x2
   \<and> savePfm (\<lambda>name. Accepts None) ''image.pfm'' frame_1x2 Map.empty
       = Inr [''image.pfm'' \<mapsto>
           ''PF'' @ [newline] @ ''1 2'' @ [newline] @ ''-1.0'' @ [newline]
           @ [CHR 0x00, CHR 0x00, CHR 0x00, CHR 0x40, CHR 0x00, CHR 0x00, CHR 0x80, CHR 0x40,
              CHR 0x00, CHR 0x00, CHR 0x00, CHR 0x41]
           @ [CHR 0x00, CHR 0x00, CHR 0x80, CHR 0x3F, CHR 0x00, CHR 0x00, CHR 0x00, CHR 0x3F,
              CHR 0x00, CHR 0x00, CHR 0x80, CHR 0x3E]]"
proof -
  have a: "1 \<le> width (hdrHeader frame_2x1)" "1 \<le> height (hdrHeader frame_2x1)"
      "completed_frame frame_2x1"
    by (simp_all add: frame_2x1_def completed_frame_def six_samples_def)
  have b: "1 \<le> width (hdrHeader frame_1x2)" "1 \<le> height (hdrHeader frame_1x2)"
      "completed_frame frame_1x2"
    by (simp_all add: frame_1x2_def completed_frame_def six_samples_def)
  have fields: "width (hdrHeader frame_2x1) = 2" "height (hdrHeader frame_2x1) = 1"
      "hdrBuffer frame_2x1 = six_samples"
      "width (hdrHeader frame_1x2) = 1" "height (hdrHeader frame_1x2) = 2"
      "hdrBuffer frame_1x2 = six_samples"
    by (simp_all add: frame_2x1_def frame_1x2_def)
  from savePfm_writes_pfm [OF a, where open_stream = "\<lambda>name. Accepts None"
        and fileName = "''image.pfm''" and fs = Map.empty]
    savePfm_writes_pfm [OF a, where open_stream = "\<lambda>name. Accepts (Some 7)"
        and fileName = "''image.pfm''" and fs = Map.empty and n = 7]
    savePfm_writes_pfm [OF a, where open_stream = "\<lambda>name. Refused"
        and fileName = "''image.pfm''" and fs = Map.empty]
    savePfm_writes_pfm [OF b, where open_stream = "\<lambda>name. Accepts None"
        and fileName = "''image.pfm''" and fs = Map.empty]
  show ?thesis
    using a b spec_pfm_2x1 spec_pfm_1x2 by (simp add: fields)
qed

section \<open>Histogram normalisation\<close>

lemma round32_positive:
  "round_mag 24 149 m < 2 ^ 128 \<Longrightarrow> round32 False m = Finite (round_mag 24 149 m)"
  by (simp add: round32_def mk_finite_def Let_def)

lemma round_mag_24_between:
  assumes "a \<le> m" "m \<le> b"
  shows "round_mag 24 149 a \<le> round_mag 24 149 m" "round_mag 24 149 m \<le> round_mag 24 149 b"
  using round_mag_mono [OF assms(1), of 23 149] round_mag_mono [OF assms(2), of 23 149]
  by simp_all

lemma float_of_u32_Finite:
  "float_of_u32 w = Finite (round_mag 24 149 (real (unat w)))"
  "0 \<le> round_mag 24 149 (real (unat w))"
  "round_mag 24 149 (real (unat w)) \<le> 2 ^ 32"
proof -
  have "unat w < 2 ^ 32"
    using unsigned_less [of w, where ?'a = nat] by simp
  then have "real (unat w) \<le> 2 ^ 32"
    by (metis less_imp_le of_nat_le_iff of_nat_numeral of_nat_power)
  then have up: "round_mag 24 149 (real (unat w)) \<le> 2 ^ 32"
    using round_mag_24_between(2) [of "real (unat w)" "real (unat w)" "2 ^ 32"]
      round_mag_24_pow32
    by simp
  then show "round_mag 24 149 (real (unat w)) \<le> 2 ^ 32" .
  have "(0::real) \<le> real (unat w)"
    by (rule of_nat_0_le_iff)
  then have "round_mag 24 149 0 \<le> round_mag 24 149 (real (unat w))"
    by (rule round_mag_24_between(1)) (rule order_refl)
  then show "0 \<le> round_mag 24 149 (real (unat w))"
    by (simp only: round_mag_24_0)
  have "round_mag 24 149 (real (unat w)) < 2 ^ 128"
    using up by (rule le_less_trans) simp
  then show "float_of_u32 w = Finite (round_mag 24 149 (real (unat w)))"
    by (simp add: float_of_u32_def round32_positive)
qed

lemma foldl_max_ge_init: "a \<le> foldl (\<lambda>mx v. if mx < v then v else mx) (a::u32) xs"
proof (induction xs arbitrary: a)
  case Nil
  show ?case by simp
next
  case (Cons x xs)
  have "a \<le> (if a < x then x else a)"
    by (simp add: order_less_imp_le)
  also have "\<dots> \<le> foldl (\<lambda>mx v. if mx < v then v else mx) (if a < x then x else a) xs"
    by (rule Cons.IH)
  finally show ?case by simp
qed

lemma foldl_max_ge_elem:
  "x \<in> set xs \<Longrightarrow> x \<le> foldl (\<lambda>mx v. if mx < v then v else mx) (a::u32) xs"
proof (induction xs arbitrary: a)
  case Nil
  then show ?case by simp
next
  case (Cons y ys)
  show ?case
  proof (cases "x = y")
    case True
    have "x \<le> (if a < y then y else a)"
      using True by (simp add: not_less)
    also have "\<dots> \<le> foldl (\<lambda>mx v. if mx < v then v else mx) (if a < y then y else a) ys"
      by (rule foldl_max_ge_init)
    finally show ?thesis by simp
  next
    case False
    with Cons.prems have "x \<in> set ys" by simp
    then show ?thesis
      using Cons.IH by simp
  qed
qed

lemma foldl_max_in:
  "foldl (\<lambda>mx v. if mx < v then v else mx) (a::u32) xs \<in> insert a (set xs)"
proof (induction xs arbitrary: a)
  case Nil
  show ?case by simp
next
  case (Cons x xs)
  from Cons.IH [of "if a < x then x else a"] show ?case
    by (auto split: if_splits)
qed

lemma histogram_max_upper: "c \<in> set data \<Longrightarrow> c \<le> histogram_max data"
  unfolding histogram_max_def by (rule foldl_max_ge_elem)

lemma histogram_max_positive:
  assumes "\<exists>c \<in> set data. c \<noteq> 0"
  shows "histogram_max data \<noteq> 0" "histogram_max data \<in> set data"
proof -
  from assms obtain c where c: "c \<in> set data" "c \<noteq> 0"
    by blast
  then have "c \<le> histogram_max data"
    by (simp add: histogram_max_upper)
  with c(2) show nz: "histogram_max data \<noteq> 0"
    by auto
  have "histogram_max data \<in> insert 0 (set data)"
    unfolding histogram_max_def by (rule foldl_max_in)
  with nz show "histogram_max data \<in> set data"
    by simp
qed

lemma reciprocal_round_bounds:
  assumes "1 \<le> m" "m \<le> 2 ^ 32"
  shows "1 / 2 ^ 32 \<le> round_mag 24 149 (1 / m)"
    and "round_mag 24 149 (1 / m) \<le> 1"
    and "m * round_mag 24 149 (1 / m) \<le> 1 + 1 / 2 ^ 24"
    and "1 - 1 / 2 ^ 24 \<le> m * round_mag 24 149 (1 / m)"
proof -
  define s where "s = round_mag 24 149 (1 / m)"
  have mpos: "0 < m"
    using assms(1) by simp
  have lo: "1 / 2 ^ 32 \<le> 1 / m"
    using assms mpos by (simp add: field_simps)
  have hi: "1 / m \<le> 1"
    using assms(1) by simp
  have "round_mag 24 149 (1 / 2 ^ 32) \<le> s"
    unfolding s_def using lo by (rule round_mag_24_between(1)) (rule order_refl)
  then show "1 / 2 ^ 32 \<le> round_mag 24 149 (1 / m)"
    unfolding s_def by (simp only: round_mag_24_inv_pow32)
  have "s \<le> round_mag 24 149 1"
    unfolding s_def using order_refl hi by (rule round_mag_24_between(2))
  then show "round_mag 24 149 (1 / m) \<le> 1"
    unfolding s_def by (simp only: round_mag_24_1)
  have "(2::real) ^ 24 \<le> 2 * (1 / 2 ^ 32 * 2 ^ 149)"
    by simp
  also have "\<dots> \<le> 2 * (1 / m * 2 ^ 149)"
    using lo by (intro mult_left_mono mult_right_mono) simp_all
  finally have "\<bar>s - 1 / m\<bar> \<le> 1 / m / 2 ^ 24"
    unfolding s_def by (rule round_mag_error)
  then have "m * \<bar>s - 1 / m\<bar> \<le> m * (1 / m / 2 ^ 24)"
    using mpos by (intro mult_left_mono) simp_all
  moreover have "m * \<bar>s - 1 / m\<bar> = \<bar>m * s - 1\<bar>"
  proof -
    have "m * \<bar>s - 1 / m\<bar> = \<bar>m\<bar> * \<bar>s - 1 / m\<bar>"
      using mpos by simp
    also have "\<dots> = \<bar>m * (s - 1 / m)\<bar>"
      by (simp only: abs_mult)
    also have "m * (s - 1 / m) = m * s - 1"
      using mpos by (simp add: right_diff_distrib)
    finally show ?thesis .
  qed
  moreover have "m * (1 / m / 2 ^ 24) = 1 / 2 ^ 24"
    using mpos by simp
  ultimately have "\<bar>m * s - 1\<bar> \<le> 1 / 2 ^ 24"
    by simp
  then show "m * round_mag 24 149 (1 / m) \<le> 1 + 1 / 2 ^ 24"
    and "1 - 1 / 2 ^ 24 \<le> m * round_mag 24 149 (1 / m)"
    unfolding s_def by linarith+
qed

lemma scaled_count_bounds:
  assumes "1 \<le> m" "m \<le> 2 ^ 32" "0 \<le> c" "c \<le> m"
  shows "0 \<le> round_mag 24 149 (c * round_mag 24 149 (1 / m))"
    and "round_mag 24 149 (c * round_mag 24 149 (1 / m)) \<le> 1"
proof -
  define s where "s = round_mag 24 149 (1 / m)"
  note r = reciprocal_round_bounds [OF assms(1,2), folded s_def]
  have spos: "0 \<le> s"
    using r(1) by (rule order_trans [rotated]) simp
  have "0 \<le> c * s"
    using assms(3) spos by simp
  then have "round_mag 24 149 0 \<le> round_mag 24 149 (c * s)"
    by (rule round_mag_24_between(1)) (rule order_refl)
  then show "0 \<le> round_mag 24 149 (c * round_mag 24 149 (1 / m))"
    unfolding s_def by (simp only: round_mag_24_0)
  have "c * s \<le> m * s"
    using assms(4) spos by (rule mult_right_mono)
  also have "\<dots> \<le> 1 + 1 / 2 ^ 24"
    by (rule r(3))
  finally have "round_mag 24 149 (c * s) \<le> round_mag 24 149 (1 + 1 / 2 ^ 24)"
    using order_refl by (rule round_mag_24_between(2) [rotated])
  then show "round_mag 24 149 (c * round_mag 24 149 (1 / m)) \<le> 1"
    unfolding s_def by (simp only: round_mag_24_tie_above_1)
qed

lemma scaled_max_lower:
  assumes "1 \<le> m" "m \<le> 2 ^ 32"
  shows "1 - 1 / 2 ^ 24 \<le> round_mag 24 149 (m * round_mag 24 149 (1 / m))"
proof -
  have "round_mag 24 149 (1 - 1 / 2 ^ 24) \<le> round_mag 24 149 (m * round_mag 24 149 (1 / m))"
    using reciprocal_round_bounds(4) [OF assms] by (rule round_mag_24_between(1)) (rule order_refl)
  then show ?thesis
    by (simp only: round_mag_24_below_1)
qed

lemma normalised_value:
  assumes "mx \<noteq> 0" "c \<le> mx"
  shows "\<exists>q. fmul round32 (float_of_u32 c) (fdiv round32 (Finite 1) (float_of_u32 mx)) = Finite q
             \<and> 0 \<le> q \<and> q \<le> 1 \<and> (c = mx \<longrightarrow> 1 - 1 / 2 ^ 24 \<le> q)"
proof -
  define m where "m = round_mag 24 149 (real (unat mx))"
  define cc where "cc = round_mag 24 149 (real (unat c))"
  define s where "s = round_mag 24 149 (1 / m)"
  define q where "q = round_mag 24 149 (cc * s)"
  have "unat mx \<noteq> 0"
    using assms(1) by (simp add: unat_eq_0)
  then have "1 \<le> unat mx"
    by simp
  then have "1 \<le> real (unat mx)"
    by (metis of_nat_1 of_nat_le_iff)
  then have "round_mag 24 149 1 \<le> m"
    unfolding m_def by (rule round_mag_24_between(1)) (rule order_refl)
  then have m1: "1 \<le> m"
    by (simp only: round_mag_24_1)
  have m2: "m \<le> 2 ^ 32"
    unfolding m_def by (rule float_of_u32_Finite(3))
  have c0: "0 \<le> cc"
    unfolding cc_def by (rule float_of_u32_Finite(2))
  have "unat c \<le> unat mx"
    using assms(2) by (simp add: word_le_nat_alt)
  then have "real (unat c) \<le> real (unat mx)"
    by (simp only: of_nat_le_iff)
  then have cm: "cc \<le> m"
    unfolding cc_def m_def by (rule round_mag_24_between(1)) (rule order_refl)
  note r = reciprocal_round_bounds [OF m1 m2, folded s_def]
  note b = scaled_count_bounds [OF m1 m2 c0 cm, folded s_def q_def]
  have s_pos: "0 < s"
    using r(1) by (rule less_le_trans [rotated]) simp
  have "s < 2 ^ 128"
    using r(2) by (rule le_less_trans) simp
  then have rs: "round32 False (1 / m) = Finite s"
    unfolding s_def by (rule round32_positive)
  have "q < 2 ^ 128"
    using b(2) by (rule le_less_trans) simp
  then have rq: "round32 False (cc * s) = Finite q"
    unfolding q_def by (rule round32_positive)
  have fm: "float_of_u32 mx = Finite m"
    unfolding m_def by (rule float_of_u32_Finite(1))
  have fc: "float_of_u32 c = Finite cc"
    unfolding cc_def by (rule float_of_u32_Finite(1))
  have scale: "fdiv round32 (Finite 1) (float_of_u32 mx) = Finite s"
    using m1 rs by (simp add: fm)
  have "fmul round32 (float_of_u32 c) (Finite s) = Finite q"
    using c0 s_pos rq by (simp add: fc)
  with scale have val: "fmul round32 (float_of_u32 c) (fdiv round32 (Finite 1) (float_of_u32 mx)) = Finite q"
    by simp
  have "1 - 1 / 2 ^ 24 \<le> q" if "c = mx"
  proof -
    from that have "cc = m"
      by (simp add: cc_def m_def)
    then show ?thesis
      unfolding q_def s_def using scaled_max_lower [OF m1 m2] by simp
  qed
  with val b show ?thesis
    by blast
qed

lemma graph_values_callback:
  "graph_values (tile_histogram_callback data g)
   = map (\<lambda>c. fmul round32 (float_of_u32 c)
                (fdiv round32 (Finite 1) (float_of_u32 (histogram_max data)))) data"
  by (simp add: tile_histogram_callback_def Let_def)

text \<open>
  Claim C5, as stated, fails: for the histogram of a single tile holding 41 splats the
  maximum is 41 and its plotted value is \<open>1 - 2 ^ -24\<close>, the \<^verbatim>\<open>float\<close> 0.99999994, not
  1.0. The callback multiplies by the rounded reciprocal of the maximum instead of
  dividing by the maximum.
\<close>

theorem tile_histogram_max_not_one:
  "histogram_max [41] = 41
   \<and> graph_values (tile_histogram_callback [41] new_Graph) = [Finite (16777215 / 16777216)]
   \<and> Finite (16777215 / 16777216) \<noteq> Finite 1"
proof -
  have a: "round32 False 41 = Finite 41"
    by (simp add: round32_def round_mag_def bexp.simps, simp add: round_half_even_def mk_finite_def)
  have b: "round32 False (1 / 41) = Finite (3273603 / 134217728)"
    by (simp add: round32_def round_mag_def bexp.simps, simp add: round_half_even_def mk_finite_def)
  have c: "round32 False (134217723 / 134217728) = Finite (16777215 / 16777216)"
    by (simp add: round32_def round_mag_def bexp.simps, simp add: round_half_even_def mk_finite_def)
  show ?thesis
    by (simp add: graph_values_callback histogram_max_def float_of_u32_def a b c)
qed

text \<open>
  Claim C5, amended. For a histogram with at least one nonzero count the callback plots,
  for each count, the \<^verbatim>\<open>float\<close> product of the count and the rounded reciprocal of the
  maximum count. There are as many values as counts, every value is a finite number
  between 0 and 1, and the value of an element holding the maximum is at least
  \<open>1 - 2 ^ -24\<close>, the largest \<^verbatim>\<open>float\<close> below 1.
\<close>

theorem tile_histogram_normalised:
  assumes "\<exists>c \<in> set data. c \<noteq> 0"
  shows "graph_values (tile_histogram_callback data g)
           = map (\<lambda>c. fmul round32 (float_of_u32 c)
                        (fdiv round32 (Finite 1) (float_of_u32 (histogram_max data)))) data
         \<and> histogram_max data \<in> set data
         \<and> (\<forall>c \<in> set data. c \<le> histogram_max data)
         \<and> (\<forall>i < length data. \<exists>q. graph_values (tile_histogram_callback data g) ! i = Finite q
               \<and> 0 \<le> q \<and> q \<le> 1
               \<and> (data ! i = histogram_max data \<longrightarrow> 1 - 1 / 2 ^ 24 \<le> q))"
proof -
  note mx = histogram_max_positive [OF assms]
  have "\<exists>q. graph_values (tile_histogram_callback data g) ! i = Finite q
               \<and> 0 \<le> q \<and> q \<le> 1
               \<and> (data ! i = histogram_max data \<longrightarrow> 1 - 1 / 2 ^ 24 \<le> q)"
    if "i < length data" for i
  proof -
    from that have "data ! i \<le> histogram_max data"
      by (intro histogram_max_upper nth_mem)
    from normalised_value [OF mx(1) this] that show ?thesis
      by (simp add: graph_values_callback)
  qed
  with mx(2) show ?thesis
    by (simp add: graph_values_callback histogram_max_upper)
qed

theorem tile_histogram_normalised_witness:
  "(\<exists>c \<in> set [2, 0, 4]. c \<noteq> (0::u32))
   \<and> histogram_max [2, 0, 4] = 4
   \<and> graph_values (tile_histogram_callback [2, 0, 4] new_Graph) = [Finite (1 / 2), Finite 0, Finite 1]
   \<and> 2 < length [2, 0, 4 :: u32]
   \<and> [2, 0, 4] ! 2 = histogram_max [2, 0, 4]
   \<and> (\<exists>q. graph_values (tile_histogram_callback [2, 0, 4] new_Graph) ! 2 = Finite q
          \<and> 0 \<le> q \<and> q \<le> 1 \<and> 1 - 1 / 2 ^ 24 \<le> q)"
proof -
  have nz: "\<exists>c \<in> set [2, 0, 4]. c \<noteq> (0::u32)"
    by simp
  have r: "round32 False 2 = Finite 2" "round32 False 4 = Finite 4" "round32 False 0 = Finite 0"
    "round32 False (1 / 4) = Finite (1 / 4)" "round32 False (1 / 2) = Finite (1 / 2)"
    "round32 False 1 = Finite 1"
    by (simp add: round32_def round_mag_def bexp.simps, simp add: round_half_even_def mk_finite_def)+
  have v: "graph_values (tile_histogram_callback [2, 0, 4] new_Graph) = [Finite (1 / 2), Finite 0, Finite 1]"
    by (simp add: graph_values_callback histogram_max_def float_of_u32_def r)
  have m: "histogram_max [2, 0, 4] = 4"
    by (simp add: histogram_max_def)
  have i: "2 < length [2, 0, 4 :: u32]"
    by simp
  have at: "[2, 0, 4] ! 2 = histogram_max [2, 0, 4]"
    using m by simp
  note t = tile_histogram_normalised [OF nz, of new_Graph]
  from t have "\<forall>i < length [2, 0, 4 :: u32].
      \<exists>q. graph_values (tile_histogram_callback [2, 0, 4] new_Graph) ! i = Finite q
        \<and> 0 \<le> q \<and> q \<le> 1
        \<and> ([2, 0, 4] ! i = histogram_max [2, 0, 4] \<longrightarrow> 1 - 1 / 2 ^ 24 \<le> q)"
    by (elim conjE)
  with i at have "\<exists>q. graph_values (tile_histogram_callback [2, 0, 4] new_Graph) ! 2 = Finite q
          \<and> 0 \<le> q \<and> q \<le> 1 \<and> 1 - 1 / 2 ^ 24 \<le> q"
    by blast
  with nz m v i at show ?thesis
    by - (intro conjI; assumption)
qed

section \<open>The field-of-view round trip\<close>

text \<open>Bounds on \<open>\<pi>\<close> from Machin's formula and the alternating series of the arc tangent.\<close>

lemma arctan_partial_sums:
  assumes "0 < x" "x \<le> 1"
  shows "(\<Sum>i<2 * n. (- 1) ^ i * (1 / real (i * 2 + 1) * x ^ (i * 2 + 1))) \<le> arctan x"
    and "arctan x \<le> (\<Sum>i<2 * n + 1. (- 1) ^ i * (1 / real (i * 2 + 1) * x ^ (i * 2 + 1)))"
proof -
  let ?a = "\<lambda>i. 1 / real (i * 2 + 1) * x ^ (i * 2 + 1)"
  have ax: "\<bar>x\<bar> \<le> 1"
    using assms by simp
  have "0 < ?a 0"
    using assms(1) by simp
  with summable_Leibniz(2) [OF zeroseq_arctan_series [OF ax] monoseq_arctan_series [OF ax]]
  have "(\<Sum>i. (- 1) ^ i * ?a i) \<in> {\<Sum>i<2 * n. (- 1) ^ i * ?a i .. \<Sum>i<2 * n + 1. (- 1) ^ i * ?a i}"
    by blast
  then show "(\<Sum>i<2 * n. (- 1) ^ i * ?a i) \<le> arctan x"
    and "arctan x \<le> (\<Sum>i<2 * n + 1. (- 1) ^ i * ?a i)"
    unfolding arctan_series [OF ax] by simp_all
qed

lemma arctan_fifth_bounds:
  "0.1973955597 \<le> arctan (1 / 5)" "arctan (1 / 5) \<le> 0.1973955617"
proof -
  have "(0.1973955597::real) \<le> (\<Sum>i<2 * 3. (- 1) ^ i * (1 / real (i * 2 + 1) * (1 / 5) ^ (i * 2 + 1)))"
    by (simp add: lessThan_nat_numeral lessThan_Suc power_divide)
  also have "\<dots> \<le> arctan (1 / 5)"
    by (rule arctan_partial_sums(1)) simp_all
  finally show "0.1973955597 \<le> arctan (1 / 5)" .
  have "arctan (1 / 5) \<le> (\<Sum>i<2 * 2 + 1. (- 1) ^ i * (1 / real (i * 2 + 1) * (1 / 5) ^ (i * 2 + 1)))"
    by (rule arctan_partial_sums(2)) simp_all
  also have "\<dots> \<le> (0.1973955617::real)"
    by (simp add: lessThan_nat_numeral lessThan_Suc power_divide)
  finally show "arctan (1 / 5) \<le> 0.1973955617" .
qed

lemma arctan_239_bounds:
  "0.0041840760 \<le> arctan (1 / 239)" "arctan (1 / 239) \<le> 0.0041840761"
proof -
  have "(0.0041840760::real) \<le> (\<Sum>i<2 * 1. (- 1) ^ i * (1 / real (i * 2 + 1) * (1 / 239) ^ (i * 2 + 1)))"
    by (simp add: lessThan_nat_numeral lessThan_Suc power_divide)
  also have "\<dots> \<le> arctan (1 / 239)"
    by (rule arctan_partial_sums(1)) simp_all
  finally show "0.0041840760 \<le> arctan (1 / 239)" .
  have "arctan (1 / 239) \<le> (\<Sum>i<2 * 1 + 1. (- 1) ^ i * (1 / real (i * 2 + 1) * (1 / 239) ^ (i * 2 + 1)))"
    by (rule arctan_partial_sums(2)) simp_all
  also have "\<dots> \<le> (0.0041840761::real)"
    by (simp add: lessThan_nat_numeral lessThan_Suc power_divide)
  finally show "arctan (1 / 239) \<le> 0.0041840761" .
qed

lemma pi_bounds: "3.14159265 < pi" "pi < 3.14159269"
proof -
  have eq: "pi = 16 * arctan (1 / 5) - 4 * arctan (1 / 239)"
    using machin by simp
  with arctan_fifth_bounds(1) arctan_239_bounds(2) show "3.14159265 < pi"
    by simp
  from eq arctan_fifth_bounds(2) arctan_239_bounds(1) show "pi < 3.14159269"
    by simp
qed


lemma quarter_turn_tolerance:
  "\<bar>8388627 / 33554432 - 1.5708 / (2 * pi)\<bar> \<le> 1 / 2 ^ 25"
proof -
  have pos: "0 < 2 * pi"
    by simp
  have "(8388627 / 33554432 - 1 / 2 ^ 25) * (2 * pi) \<le> 1.5708"
    using pi_bounds(2) by simp
  then have lower: "8388627 / 33554432 - 1 / 2 ^ 25 \<le> 1.5708 / (2 * pi)"
    using pos by (simp only: pos_le_divide_eq)
  have "1.5708 \<le> (8388627 / 33554432 + 1 / 2 ^ 25) * (2 * pi)"
    using pi_bounds(1) by simp
  then have upper: "1.5708 / (2 * pi) \<le> 8388627 / 33554432 + 1 / 2 ^ 25"
    using pos by (simp only: pos_divide_le_eq)
  from lower upper show ?thesis
    by (simp only: abs_le_iff) linarith
qed

lemma two_pi: "fmul round64 (Finite 2) M_PI = Finite (884279719003555 / 140737488355328)"
proof -
  have b: "bexp 53 (884279719003555 / 140737488355328 * 2 ^ 1074) = 1024"
    by (rule bexp_eq) simp_all
  have "round_mag 53 1074 (884279719003555 / 140737488355328) = 884279719003555 / 140737488355328"
    unfolding round_mag_def Let_def b by (simp add: round_half_even_def)
  then have "round64 False (884279719003555 / 140737488355328) = Finite (884279719003555 / 140737488355328)"
    by (simp add: round64_def mk_finite_def)
  then show ?thesis
    by (simp add: M_PI_def)
qed

lemma fov_quotient:
  "round64 False (44214087843840 / 176855943800711)
   = Finite (4503610006173707 / 18014398509481984)"
proof -
  have b: "bexp 53 (44214087843840 / 176855943800711 * 2 ^ 1074) = 1020"
    by (rule bexp_eq) simp_all
  have "round_mag 53 1074 (44214087843840 / 176855943800711) = 4503610006173707 / 18014398509481984"
    unfolding round_mag_def Let_def b by (simp add: round_half_even_def)
  then show ?thesis
    by (simp add: round64_def mk_finite_def)
qed

lemma fov_single:
  "round32 False (4503610006173707 / 18014398509481984) = Finite (8388627 / 33554432)"
  by (simp add: round32_def round_mag_def bexp.simps, simp add: round_half_even_def mk_finite_def)

lemma fov_quarter_turn_value: "fov_quarter_turn = Finite (13176825 / 8388608)"
  unfolding fov_quarter_turn_def
  by (simp add: round32_def round_mag_def bexp.simps, simp add: round_half_even_def mk_finite_def)

lemma fov_subscription_quarter_turn:
  "fov_subscription fov_quarter_turn st = st\<lparr>fovSlider := Finite (8388627 / 33554432)\<rparr>"
  by (simp add: fov_subscription_def fov_quarter_turn_value two_pi fov_quotient fov_single)

lemma publishes_on_append:
  "publishes_on name (ps @ qs) = publishes_on name ps @ publishes_on name qs"
  by (simp add: publishes_on_def)

text \<open>
  Claim C7. On the constructed form: publish \<open>fov\<close> with the \<^verbatim>\<open>float\<close> 1.5708, then
  dispatch an inbound \<open>fov\<close> message with the same payload. The dispatch succeeds; the
  slider then displays 8388627 / 33554432, which is within \<open>2 ^ -25\<close> (one unit in the
  last place of a \<^verbatim>\<open>float\<close> of that size) of \<open>1.5708 / (2\<pi>)\<close>; the packets sent are the same
  before and after the dispatch, so the only publishes on \<open>fov\<close> are the constructor's
  default and the one of the scenario.
\<close>

theorem fov_round_trip:
  "\<exists>st2 q.
     dispatch ''fov'' (PFloat fov_quarter_turn)
         (serialise ''fov'' (PFloat fov_quarter_turn) (ControlsForm_new s)) = Inr st2
     \<and> fovSlider st2 = Finite q
     \<and> \<bar>q - 1.5708 / (2 * pi)\<bar> \<le> 1 / 2 ^ 25
     \<and> sent st2 = sent (serialise ''fov'' (PFloat fov_quarter_turn) (ControlsForm_new s))
     \<and> publishes_on ''fov'' (sent st2)
         = publishes_on ''fov'' s @ [PFloat (Finite 90), PFloat fov_quarter_turn]"
proof -
  define st1 where "st1 = serialise ''fov'' (PFloat fov_quarter_turn) (ControlsForm_new s)"
  define st2 where "st2 = st1\<lparr>fovSlider := Finite (8388627 / 33554432)\<rparr>"
  have "subs st1 ''fov'' = Some FovSubscription"
    by (simp add: st1_def serialise_def subs_ControlsForm_new)
  then have d: "dispatch ''fov'' (PFloat fov_quarter_turn) st1 = Inr st2"
    by (simp add: st2_def fov_subscription_quarter_turn)
  have shown: "fovSlider st2 = Finite (8388627 / 33554432)"
    by (simp add: st2_def)
  have same: "sent st2 = sent st1"
    by (simp add: st2_def)
  have "sent st1 = s @ [(''fov'', PFloat (Finite 90)), (''exposure'', PFloat (Finite 0)),
          (''gamma'', PFloat (Finite (9227469 / 4194304))), (''X'', PFloat (Finite 640)),
          (''Y'', PFloat (Finite 360)), (''lambda1'', PFloat (Finite 5000)),
          (''lambda2'', PFloat (Finite 5000)), (''fov'', PFloat fov_quarter_turn)]"
    by (simp add: st1_def serialise_def sent_ControlsForm_new)
  then have pubs: "publishes_on ''fov'' (sent st2)
         = publishes_on ''fov'' s @ [PFloat (Finite 90), PFloat fov_quarter_turn]"
    unfolding same by (simp add: publishes_on_append) (simp add: publishes_on_def)
  from d shown quarter_turn_tolerance same pubs show ?thesis
    unfolding st1_def by blast
qed

end
